theory Spec2Isabelle
  imports Complex_Main
begin

section \<open>Deep Q-learning training loop (dqn/train.py)\<close>

text \<open>
  A shallow embedding of \<^verbatim>\<open>src/dqn/train.py\<close>: the functions \<^verbatim>\<open>eval_model\<close> and
  \<^verbatim>\<open>main\<close>. Python floats are modelled as exact reals (the TD target of line 146 also
  on floats with their infinities and NaN, \<open>td_target_fl\<close>), Python ints as \<open>int\<close>
  (Isabelle's \<open>mod\<close> on \<open>int\<close> is Python's \<^verbatim>\<open>%\<close> for a divisor other than zero; the
  zero divisor is written out as \<open>ZeroDivisionError\<close>). The environment, the networks,
  the optimizer, the replay buffer and the random sources are collaborators that the
  file imports; they are parameters of the model.
\<close>

subsection \<open>Errors\<close>

datatype py_error = ZeroDivisionError | RuntimeError

subsection \<open>Tensor operations used by the TD target\<close>

text \<open>
  A tensor of shape \<open>(B, n)\<close> is a list of \<open>B\<close> rows; a tensor of shape \<open>(B, 1)\<close> is a
  list of \<open>B\<close> numbers. \<^verbatim>\<open>torch.max(x, dim=1, keepdim=True)\<close> returns the row maxima and
  the index of the first maximal entry of each row, and raises when the reduced
  dimension is empty.
\<close>

fun max_from :: "real \<Rightarrow> int \<Rightarrow> int \<Rightarrow> real list \<Rightarrow> real \<times> int" where
  "max_from m mi i [] = (m, mi)"
| "max_from m mi i (q # qs) =
     (if m < q then max_from q i (i + 1) qs else max_from m mi (i + 1) qs)"

fun row_max :: "real list \<Rightarrow> py_error + real \<times> int" where
  "row_max [] = Inl RuntimeError"
| "row_max (q # qs) = Inr (max_from q 0 1 qs)"

fun torch_max :: "real list list \<Rightarrow> py_error + real list \<times> int list" where
  "torch_max [] = Inr ([], [])"
| "torch_max (row # rows) =
     (case row_max row of
        Inl e \<Rightarrow> Inl e
      | Inr (v, i) \<Rightarrow>
          (case torch_max rows of
             Inl e \<Rightarrow> Inl e
           | Inr (vs, is) \<Rightarrow> Inr (v # vs, i # is)))"

text \<open>
  \<^verbatim>\<open>torch.gather(input, 1, index)\<close> with \<open>index\<close> of shape \<open>(B', 1)\<close>: row \<open>k\<close> of the
  result is \<open>input[k][index[k]]\<close>. It raises when \<open>index\<close> has more rows than \<open>input\<close> or
  an index lies outside its row.
\<close>

definition torch_gather :: "real list list \<Rightarrow> int list \<Rightarrow> py_error + real list" where
  "torch_gather input index =
     (if length index \<le> length input
         \<and> list_all (\<lambda>(row, i). 0 \<le> i \<and> i < int (length row)) (zip input index)
      then Inr (map (\<lambda>(row, i). row ! nat i) (zip input index))
      else Inl RuntimeError)"

text \<open>
  An elementwise binary operation on two \<open>(B, 1)\<close> tensors, with torch's broadcasting of
  a dimension of size one.
\<close>

definition broadcast2 ::
  "('a \<Rightarrow> 'a \<Rightarrow> 'a) \<Rightarrow> 'a list \<Rightarrow> 'a list \<Rightarrow> py_error + 'a list" where
  "broadcast2 f xs ys =
     (if length xs = length ys then Inr (map (\<lambda>(x, y). f x y) (zip xs ys))
      else if length xs = 1 then Inr (map (f (hd xs)) ys)
      else if length ys = 1 then Inr (map (\<lambda>x. f x (hd ys)) xs)
      else Inl RuntimeError)"

subsection \<open>The sampled batch and the TD target (main, lines 131--146)\<close>

text \<open>
  The seven tensors returned by \<^verbatim>\<open>exp_replay.sample_experience\<close>. The reward, done
  and action tensors have shape \<open>(B, 1)\<close>; \<open>batch_d\<close> holds the done flags as numbers
  (the code computes \<^verbatim>\<open>1 - batch_d\<close>).
\<close>

record 'obs batch =
  batch_s :: "'obs list"
  batch_ns :: "'obs list"
  batch_a :: "int list"
  batch_r :: "real list"
  batch_d :: "real list"
  batch_idx :: "int list"
  batch_isw :: "real list"

text \<open>
  Lines 135--145. \<open>online_forward\<close> and \<open>target_forward\<close> are
  \<^verbatim>\<open>online_qnet.forward\<close> and \<^verbatim>\<open>target_qnet.forward\<close>.
\<close>

definition compute_q_ns ::
  "bool \<Rightarrow> ('obs list \<Rightarrow> real list list) \<Rightarrow> ('obs list \<Rightarrow> real list list) \<Rightarrow> 'obs list
     \<Rightarrow> py_error + real list" where
  "compute_q_ns ddqn online_forward target_forward ns =
     (if ddqn then
        (let online_q_ns = online_forward ns in
         case torch_max online_q_ns of
           Inl e \<Rightarrow> Inl e
         | Inr (vals, max_a_ns) \<Rightarrow>
             (let targ_q_ns = target_forward ns in torch_gather targ_q_ns max_a_ns))
      else
        (let targ_q_ns = target_forward ns in
         case torch_max targ_q_ns of
           Inl e \<Rightarrow> Inl e
         | Inr (vals, idxs) \<Rightarrow> Inr vals))"

text \<open>Line 146: \<^verbatim>\<open>q_targ = torch.add(batch_r, GAMMA * (1 - batch_d) * q_ns)\<close>.\<close>

definition td_target :: "real \<Rightarrow> real list \<Rightarrow> real list \<Rightarrow> real list \<Rightarrow> py_error + real list" where
  "td_target gamma r d q_ns =
     (case broadcast2 (\<lambda>x y. x * y) (map (\<lambda>x. gamma * (1 - x)) d) q_ns of
        Inl e \<Rightarrow> Inl e
      | Inr boot \<Rightarrow> broadcast2 (\<lambda>x y. x + y) r boot)"

text \<open>
  Line 146 again, on the values that an element of a float tensor can hold: a finite
  number, an infinity or NaN. The operations are those of IEEE 754 on these values: every
  operation on NaN gives NaN, and so do the product of zero with an infinity and the sum
  of the two infinities. Finite results are not rounded, and the sign of a zero is not
  kept. Equality of two such values is identity, not the comparison of floats (which
  is false on NaN). On finite values this is \<open>td_target\<close>. Python evaluates
  \<^verbatim>\<open>GAMMA * (1 - batch_d) * q_ns\<close> from the left.
\<close>

datatype fl = Finite real | PInf | NInf | NaN







definition compute_q_targ ::
  "bool \<Rightarrow> real \<Rightarrow> ('obs list \<Rightarrow> real list list) \<Rightarrow> ('obs list \<Rightarrow> real list list) \<Rightarrow> 'obs batch
     \<Rightarrow> py_error + real list" where
  "compute_q_targ ddqn gamma online_forward target_forward b =
     (case compute_q_ns ddqn online_forward target_forward (batch_ns b) of
        Inl e \<Rightarrow> Inl e
      | Inr q_ns \<Rightarrow> td_target gamma (batch_r b) (batch_d b) q_ns)"

subsection \<open>Hyperparameters (main, lines 37--61)\<close>

record hparams =
  SEED :: int
  DDQN :: bool
  DUELING :: bool
  PER :: bool
  PER_ALPHA :: real
  PER_BETA :: real
  PLOT_INTERVAL :: int
  TOTAL_TIMESTEPS :: int
  N_STEPS :: int
  UPDATE_STEPS :: int
  UPDATE_TARGET :: int
  BATCH_SIZE :: int
  BUFFER_SIZE :: int
  GAMMA :: real
  INIT_LR :: real
  IS_LR_DECAY :: bool
  LR_DECAY :: real
  INIT_EPS :: real
  FIN_EPS :: real
  EXPLORE :: int

subsection \<open>Collaborators\<close>

text \<open>
  The modules \<^verbatim>\<open>networks\<close>, \<^verbatim>\<open>replay_buffers\<close>, \<^verbatim>\<open>gym\<close> and the random sources are
  not part of the file. Each call the file makes is a field of this record; objects the
  calls mutate are passed in and returned: \<open>'env\<close> is the environment object, \<open>'net\<close> a
  network with its optimizer, \<open>'buf\<close> the replay buffer apart from its attribute
  \<^verbatim>\<open>beta\<close>, \<open>'rng\<close> the process-wide random state.

  Modelled from the spec: the replay buffer's methods read \<^verbatim>\<open>beta\<close> and do not
  assign it (the exponent is owned by the schedule and read by the sampler), and
  \<^verbatim>\<open>forward\<close> and \<^verbatim>\<open>sample_discrete_action\<close> do not change the network.
\<close>

record ('obs, 'env, 'net, 'buf, 'rng) collab =
  seed_all :: "int \<Rightarrow> 'rng"
  randint :: "int \<Rightarrow> int \<Rightarrow> 'rng \<Rightarrow> int \<times> 'rng"
  gym_make :: "'env"
  n_states :: int
  n_actions :: int
  env_reset :: "int \<Rightarrow> 'env \<Rightarrow> 'obs \<times> 'env"
  env_step :: "int \<Rightarrow> 'env \<Rightarrow> ('obs \<times> real \<times> bool \<times> bool) \<times> 'env"
  net_init :: "bool \<Rightarrow> int \<Rightarrow> int \<Rightarrow> real \<Rightarrow> 'rng \<Rightarrow> 'net \<times> 'rng"
  forward :: "'net \<Rightarrow> 'obs list \<Rightarrow> real list list"
  sample_discrete_action :: "'net \<Rightarrow> 'obs \<Rightarrow> real \<Rightarrow> int \<Rightarrow> 'rng \<Rightarrow> int \<times> 'rng"
  optimizer_step :: "real \<Rightarrow> bool \<Rightarrow> 'net \<Rightarrow> 'obs batch \<Rightarrow> real list \<Rightarrow> 'net"
  buffer_init :: "bool \<Rightarrow> int \<Rightarrow> int \<Rightarrow> real \<Rightarrow> 'buf"
  insert_exp :: "'obs \<Rightarrow> 'obs \<Rightarrow> int \<Rightarrow> real \<Rightarrow> bool \<Rightarrow> 'buf \<Rightarrow> 'buf"
  counter :: "'buf \<Rightarrow> int"
  sample_experience :: "int \<Rightarrow> real \<Rightarrow> 'buf \<Rightarrow> 'rng \<Rightarrow> 'obs batch \<times> 'buf \<times> 'rng"
  update_priorities :: "int list \<Rightarrow> real list \<Rightarrow> 'buf \<Rightarrow> 'buf"

subsection \<open>The variables of main\<close>

record ('env, 'net, 'buf, 'rng) state =
  epoch_counter :: int
  step_counter :: int
  lstep_counter :: int
  epsilon :: real
  lr :: real
  online_qnet :: 'net
  target_qnet :: 'net
  beta :: real
  exp_replay :: 'buf
  env :: 'env
  rng :: 'rng
  accum_rew :: "real list"
  accum_eval_rew :: "real list"
  accum_steps :: "int list"

subsection \<open>eval_model (lines 24--33)\<close>

fun eval_loop ::
  "('obs, 'env, 'net, 'buf, 'rng) collab \<Rightarrow> 'net \<Rightarrow> int \<Rightarrow> nat \<Rightarrow> 'env \<Rightarrow> 'rng \<Rightarrow> 'obs \<Rightarrow> real
     \<Rightarrow> real \<times> 'env \<times> 'rng" where
  "eval_loop c model na 0 e r s eps_rew = (eps_rew, e, r)"
| "eval_loop c model na (Suc n) e r s eps_rew =
     (case sample_discrete_action c model s (- 1) na r of
        (a, r1) \<Rightarrow>
          (case env_step c a e of
             ((next_s, rew, done, trunc), e1) \<Rightarrow>
               if done then (eps_rew + rew, e1, r1)
               else eval_loop c model na n e1 r1 next_s (eps_rew + rew)))"

definition eval_model ::
  "('obs, 'env, 'net, 'buf, 'rng) collab \<Rightarrow> 'net \<Rightarrow> 'env \<Rightarrow> 'rng \<Rightarrow> int \<Rightarrow> int \<Rightarrow> int
     \<Rightarrow> real \<times> 'env \<times> 'rng" where
  "eval_model c model e r max_steps na env_seed =
     (case env_reset c env_seed e of
        (s, e0) \<Rightarrow> eval_loop c model na (nat max_steps) e0 r s 0)"

subsection \<open>The learning update (main, lines 125--158)\<close>

text \<open>Line 125. Python's \<^verbatim>\<open>and\<close> does not evaluate the modulus when the first test fails.\<close>

definition learn_due ::
  "hparams \<Rightarrow> ('obs, 'env, 'net, 'buf, 'rng) collab \<Rightarrow> ('env, 'net, 'buf, 'rng) state
     \<Rightarrow> py_error + bool" where
  "learn_due cfg c st =
     (if counter c (exp_replay st) > BATCH_SIZE cfg then
        (if UPDATE_STEPS cfg = 0 then Inl ZeroDivisionError
         else Inr (step_counter st mod UPDATE_STEPS cfg = 0))
      else Inr False)"

text \<open>Lines 126--129.\<close>

definition update_target ::
  "hparams \<Rightarrow> ('env, 'net, 'buf, 'rng) state \<Rightarrow> py_error + ('env, 'net, 'buf, 'rng) state" where
  "update_target cfg st =
     (let st1 = st\<lparr>lstep_counter := lstep_counter st + 1\<rparr> in
      if UPDATE_TARGET cfg = 0 then Inl ZeroDivisionError
      else if lstep_counter st1 mod UPDATE_TARGET cfg = 0
        then Inr (st1\<lparr>target_qnet := online_qnet st1\<rparr>)
        else Inr st1)"

text \<open>
  Lines 131--158. The loss function is \<^verbatim>\<open>nn.MSELoss(reduction="none")\<close> (line 90). The
  value of the reduced loss is used only through its gradient, which is the
  optimizer's business.
\<close>

definition gradient_update ::
  "hparams \<Rightarrow> ('obs, 'env, 'net, 'buf, 'rng) collab \<Rightarrow> ('env, 'net, 'buf, 'rng) state
     \<Rightarrow> py_error + ('env, 'net, 'buf, 'rng) state" where
  "gradient_update cfg c st =
     (case sample_experience c (BATCH_SIZE cfg) (beta st) (exp_replay st) (rng st) of
        (b, buf1, rng1) \<Rightarrow>
          (let q_pred = forward c (online_qnet st) (batch_s b) in
           case compute_q_targ (DDQN cfg) (GAMMA cfg)
                  (forward c (online_qnet st)) (forward c (target_qnet st)) b of
             Inl e \<Rightarrow> Inl e
           | Inr q_targ \<Rightarrow>
               (case torch_gather q_pred (batch_a b) of
                  Inl e \<Rightarrow> Inl e
                | Inr q_sa \<Rightarrow>
                    (case broadcast2 (\<lambda>p t. (p - t)\<^sup>2) q_sa q_targ of
                       Inl e \<Rightarrow> Inl e
                     | Inr loss \<Rightarrow>
                         (case (if PER cfg then broadcast2 (\<lambda>x y. x * y) loss (batch_isw b)
                                else Inr loss) of
                            Inl e \<Rightarrow> Inl e
                          | Inr weighted \<Rightarrow>
                              Inr (st\<lparr>exp_replay :=
                                        (if PER cfg then update_priorities c (batch_idx b) loss buf1
                                         else buf1),
                                      rng := rng1,
                                      online_qnet :=
                                        optimizer_step c (lr st) (PER cfg) (online_qnet st) b q_targ\<rparr>))))))"

definition learn ::
  "hparams \<Rightarrow> ('obs, 'env, 'net, 'buf, 'rng) collab \<Rightarrow> ('env, 'net, 'buf, 'rng) state
     \<Rightarrow> py_error + ('env, 'net, 'buf, 'rng) state" where
  "learn cfg c st =
     (case update_target cfg st of
        Inl e \<Rightarrow> Inl e
      | Inr st1 \<Rightarrow> gradient_update cfg c st1)"

subsection \<open>The schedules (main, lines 160--165)\<close>

text \<open>Line 161. A float divided by the int zero raises.\<close>

definition decay_epsilon ::
  "hparams \<Rightarrow> ('env, 'net, 'buf, 'rng) state \<Rightarrow> py_error + ('env, 'net, 'buf, 'rng) state" where
  "decay_epsilon cfg st =
     (if EXPLORE cfg = 0 then Inl ZeroDivisionError
      else Inr (st\<lparr>epsilon :=
                  max (FIN_EPS cfg)
                      (epsilon st - (INIT_EPS cfg - FIN_EPS cfg) / of_int (EXPLORE cfg))\<rparr>))"

text \<open>Lines 163--165.\<close>

definition anneal_beta ::
  "hparams \<Rightarrow> ('env, 'net, 'buf, 'rng) state \<Rightarrow> py_error + ('env, 'net, 'buf, 'rng) state" where
  "anneal_beta cfg st =
     (if PER cfg then
        (if TOTAL_TIMESTEPS cfg = 0 then Inl ZeroDivisionError
         else
           (let fraction = of_int (step_counter st) / of_int (TOTAL_TIMESTEPS cfg) in
            Inr (st\<lparr>beta := beta st + fraction * (1 - beta st)\<rparr>)))
      else Inr st)"

subsection \<open>One environment step (main, lines 116--168)\<close>

text \<open>
  The body of the \<^verbatim>\<open>for\<close> loop. It returns the variables, the observation \<open>s\<close>, the
  episode return and the \<open>done\<close> flag that decides the \<^verbatim>\<open>break\<close> of line 168. The
  flag \<open>trunc\<close> is bound by line 121 and read nowhere.
\<close>

definition train_step ::
  "hparams \<Rightarrow> ('obs, 'env, 'net, 'buf, 'rng) collab \<Rightarrow> ('env, 'net, 'buf, 'rng) state \<Rightarrow> 'obs \<Rightarrow> real
     \<Rightarrow> py_error + ('env, 'net, 'buf, 'rng) state \<times> 'obs \<times> real \<times> bool" where
  "train_step cfg c st s eps_rew =
     (let st1 = st\<lparr>step_counter := step_counter st + 1\<rparr> in
      case sample_discrete_action c (online_qnet st1) s (epsilon st1) (n_actions c) (rng st1) of
        (a, rng1) \<Rightarrow>
          (case env_step c a (env st1) of
             ((next_s, rew, done, trunc), env1) \<Rightarrow>
               (let st2 = st1\<lparr>rng := rng1, env := env1,
                              exp_replay := insert_exp c s next_s a rew done (exp_replay st1)\<rparr> in
                case learn_due cfg c st2 of
                  Inl e \<Rightarrow> Inl e
                | Inr due \<Rightarrow>
                    (case (if due then learn cfg c st2 else Inr st2) of
                       Inl e \<Rightarrow> Inl e
                     | Inr st3 \<Rightarrow>
                         (case decay_epsilon cfg st3 of
                            Inl e \<Rightarrow> Inl e
                          | Inr st4 \<Rightarrow>
                              (case anneal_beta cfg st4 of
                                 Inl e \<Rightarrow> Inl e
                               | Inr st5 \<Rightarrow> Inr (st5, next_s, eps_rew + rew, done)))))))"

text \<open>Lines 115--168: \<^verbatim>\<open>for i in range(N_STEPS)\<close>, left early when \<open>done\<close> holds.\<close>

fun for_loop ::
  "hparams \<Rightarrow> ('obs, 'env, 'net, 'buf, 'rng) collab \<Rightarrow> nat \<Rightarrow> ('env, 'net, 'buf, 'rng) state \<Rightarrow> 'obs
     \<Rightarrow> real \<Rightarrow> py_error + ('env, 'net, 'buf, 'rng) state \<times> 'obs \<times> real" where
  "for_loop cfg c 0 st s eps_rew = Inr (st, s, eps_rew)"
| "for_loop cfg c (Suc n) st s eps_rew =
     (case train_step cfg c st s eps_rew of
        Inl e \<Rightarrow> Inl e
      | Inr (st', s', eps_rew', done) \<Rightarrow>
          if done then Inr (st', s', eps_rew') else for_loop cfg c n st' s' eps_rew')"

subsection \<open>One episode (main, lines 110--194)\<close>

text \<open>Lines 171--174. The optimizer's rate is \<open>lr\<close>, handed to every optimizer step.\<close>

definition decay_lr ::
  "hparams \<Rightarrow> ('env, 'net, 'buf, 'rng) state \<Rightarrow> py_error + ('env, 'net, 'buf, 'rng) state" where
  "decay_lr cfg st =
     (if IS_LR_DECAY cfg then
        (if 1 + LR_DECAY cfg * of_int (epoch_counter st) = 0 then Inl ZeroDivisionError
         else Inr (st\<lparr>lr := lr st / (1 + LR_DECAY cfg * of_int (epoch_counter st))\<rparr>))
      else Inr st)"

text \<open>Lines 179--194; printing and plotting leave the variables alone.\<close>

definition evaluate ::
  "hparams \<Rightarrow> ('obs, 'env, 'net, 'buf, 'rng) collab \<Rightarrow> int \<Rightarrow> ('env, 'net, 'buf, 'rng) state
     \<Rightarrow> py_error + ('env, 'net, 'buf, 'rng) state" where
  "evaluate cfg c env_seed st =
     (if PLOT_INTERVAL cfg = 0 then Inl ZeroDivisionError
      else if epoch_counter st mod PLOT_INTERVAL cfg = 0 then
        (case eval_model c (online_qnet st) (env st) (rng st) (N_STEPS cfg) (n_actions c) env_seed of
           (eval_rew, env1, rng1) \<Rightarrow>
             Inr (st\<lparr>accum_eval_rew := accum_eval_rew st @ [eval_rew], env := env1, rng := rng1\<rparr>))
      else Inr st)"

definition episode ::
  "hparams \<Rightarrow> ('obs, 'env, 'net, 'buf, 'rng) collab \<Rightarrow> int \<Rightarrow> ('env, 'net, 'buf, 'rng) state
     \<Rightarrow> py_error + ('env, 'net, 'buf, 'rng) state" where
  "episode cfg c env_seed st =
     (let st1 = st\<lparr>epoch_counter := epoch_counter st + 1\<rparr> in
      case env_reset c env_seed (env st1) of
        (s, env1) \<Rightarrow>
          (case for_loop cfg c (nat (N_STEPS cfg)) (st1\<lparr>env := env1\<rparr>) s 0 of
             Inl e \<Rightarrow> Inl e
           | Inr (st2, s', eps_rew) \<Rightarrow>
               (case decay_lr cfg st2 of
                  Inl e \<Rightarrow> Inl e
                | Inr st3 \<Rightarrow>
                    evaluate cfg c env_seed
                      (st3\<lparr>accum_rew := accum_rew st3 @ [eps_rew],
                           accum_steps := accum_steps st3 @ [step_counter st3]\<rparr>))))"

subsection \<open>The run (main, lines 63--194)\<close>

text \<open>A Python \<^verbatim>\<open>while\<close> loop whose body may raise; \<open>None\<close> is a loop that never ends.\<close>

partial_function (option) while_loop ::
  "('s \<Rightarrow> bool) \<Rightarrow> ('s \<Rightarrow> py_error + 's) \<Rightarrow> 's \<Rightarrow> (py_error + 's) option" where
  "while_loop b body st =
     (if b st then
        (case body st of
           Inl e \<Rightarrow> Some (Inl e)
         | Inr st' \<Rightarrow> while_loop b body st')
      else Some (Inr st))"

text \<open>Lines 109--194.\<close>

definition main_loop ::
  "hparams \<Rightarrow> ('obs, 'env, 'net, 'buf, 'rng) collab \<Rightarrow> int \<Rightarrow> ('env, 'net, 'buf, 'rng) state
     \<Rightarrow> (py_error + ('env, 'net, 'buf, 'rng) state) option" where
  "main_loop cfg c env_seed st =
     while_loop (\<lambda>st. step_counter st < TOTAL_TIMESTEPS cfg) (episode cfg c env_seed) st"

text \<open>Lines 64--67: the seeds are set and the environment seed is drawn.\<close>

definition draw_env_seed :: "hparams \<Rightarrow> ('obs, 'env, 'net, 'buf, 'rng) collab \<Rightarrow> int \<times> 'rng" where
  "draw_env_seed cfg c = randint c 0 100 (seed_all c (SEED cfg))"

text \<open>Lines 69--107: the variables before the first episode.\<close>

definition init_state ::
  "hparams \<Rightarrow> ('obs, 'env, 'net, 'buf, 'rng) collab \<Rightarrow> ('env, 'net, 'buf, 'rng) state" where
  "init_state cfg c =
     (case net_init c (DUELING cfg) (n_states c) (n_actions c) (INIT_LR cfg)
             (snd (draw_env_seed cfg c)) of
        (net, rng1) \<Rightarrow>
          \<lparr>epoch_counter = 0, step_counter = 0, lstep_counter = 0,
           epsilon = INIT_EPS cfg, lr = INIT_LR cfg,
           online_qnet = net, target_qnet = net,
           beta = PER_BETA cfg,
           exp_replay = buffer_init c (PER cfg) (BUFFER_SIZE cfg) (n_states c) (PER_ALPHA cfg),
           env = gym_make c, rng = rng1,
           accum_rew = [], accum_eval_rew = [], accum_steps = []\<rparr>)"

definition main ::
  "hparams \<Rightarrow> ('obs, 'env, 'net, 'buf, 'rng) collab
     \<Rightarrow> (py_error + ('env, 'net, 'buf, 'rng) state) option" where
  "main cfg c = main_loop cfg c (fst (draw_env_seed cfg c)) (init_state cfg c)"

subsection \<open>A small concrete run\<close>

text \<open>
  A two-action environment that never reports \<open>done\<close> and always reports
  \<open>truncated\<close>, a network whose parameters are a version number that every
  optimizer step increments, and a replay buffer that counts its insertions. The states
  are the variables of \<^verbatim>\<open>main\<close> before the first, after the first and after the second
  environment step of the first episode.
\<close>

definition demo_cfg :: hparams where
  "demo_cfg = \<lparr>SEED = 0, DDQN = True, DUELING = False, PER = True, PER_ALPHA = 1, PER_BETA = 0,
     PLOT_INTERVAL = 1, TOTAL_TIMESTEPS = 1, N_STEPS = 2, UPDATE_STEPS = 1, UPDATE_TARGET = 2,
     BATCH_SIZE = 0, BUFFER_SIZE = 4, GAMMA = 1 / 2, INIT_LR = 1, IS_LR_DECAY = True,
     LR_DECAY = 1, INIT_EPS = 1, FIN_EPS = 0, EXPLORE = 2\<rparr>"

definition demo_collab :: "(nat, nat, nat, nat, unit) collab" where
  "demo_collab = \<lparr>
     seed_all = (\<lambda>seed. ()),
     randint = (\<lambda>lo hi r. (7, r)),
     gym_make = 0,
     n_states = 1,
     n_actions = 2,
     env_reset = (\<lambda>seed e. (0, 0)),
     env_step = (\<lambda>a e. ((Suc e, 1, False, True), Suc e)),
     net_init = (\<lambda>dueling ns na rate r. (0, r)),
     forward = (\<lambda>net ss. map (\<lambda>s. [real net, 0]) ss),
     sample_discrete_action = (\<lambda>net s eps na r. (0, r)),
     optimizer_step = (\<lambda>rate per net b q. Suc net),
     buffer_init = (\<lambda>per size ns alpha. 0),
     insert_exp = (\<lambda>s ns a rew d buf. Suc buf),
     counter = (\<lambda>buf. int buf),
     sample_experience = (\<lambda>k b buf r.
        (\<lparr>batch_s = [0], batch_ns = [1], batch_a = [0], batch_r = [1], batch_d = [0],
          batch_idx = [0], batch_isw = [1]\<rparr>, buf, r)),
     update_priorities = (\<lambda>idx loss buf. buf)\<rparr>"

definition demo_st0 :: "(nat, nat, nat, unit) state" where
  "demo_st0 = \<lparr>epoch_counter = 1, step_counter = 0, lstep_counter = 0, epsilon = 1, lr = 1,
     online_qnet = 0, target_qnet = 0, beta = 0, exp_replay = 0, env = 0, rng = (),
     accum_rew = [], accum_eval_rew = [], accum_steps = []\<rparr>"

definition demo_st1 :: "(nat, nat, nat, unit) state" where
  "demo_st1 = \<lparr>epoch_counter = 1, step_counter = 1, lstep_counter = 1, epsilon = 1 / 2, lr = 1,
     online_qnet = 1, target_qnet = 0, beta = 1, exp_replay = 1, env = 1, rng = (),
     accum_rew = [], accum_eval_rew = [], accum_steps = []\<rparr>"

definition demo_st2 :: "(nat, nat, nat, unit) state" where
  "demo_st2 = \<lparr>epoch_counter = 1, step_counter = 2, lstep_counter = 2, epsilon = 0, lr = 1,
     online_qnet = 2, target_qnet = 1, beta = 1, exp_replay = 2, env = 2, rng = (),
     accum_rew = [], accum_eval_rew = [], accum_steps = []\<rparr>"

subsection \<open>Relations between the variables before and after a stretch of the run\<close>

text \<open>
  The learning-update count does not decrease, and the target network is the same when
  no count in between is a multiple of \<open>UPDATE_TARGET\<close>.
\<close>

definition target_rel :: "hparams \<Rightarrow> ('env, 'net, 'buf, 'rng) state \<Rightarrow> ('env, 'net, 'buf, 'rng) state \<Rightarrow> bool" where
  "target_rel cfg x y \<longleftrightarrow>
     lstep_counter x \<le> lstep_counter y
     \<and> ((\<forall>j. lstep_counter x < j \<and> j \<le> lstep_counter y \<longrightarrow> j mod UPDATE_TARGET cfg \<noteq> 0)
          \<longrightarrow> target_qnet y = target_qnet x)"

text \<open>
  Line 161 as a function of the exploration rate, and the relation "the exploration rate
  was updated by line 161 once for every environment step counted in between".
\<close>

definition decay_once :: "hparams \<Rightarrow> real \<Rightarrow> real" where
  "decay_once cfg e =
     max (FIN_EPS cfg) (e - (INIT_EPS cfg - FIN_EPS cfg) / of_int (EXPLORE cfg))"

definition eps_rel ::
  "hparams \<Rightarrow> ('env, 'net, 'buf, 'rng) state \<Rightarrow> ('env, 'net, 'buf, 'rng) state \<Rightarrow> bool" where
  "eps_rel cfg x y \<longleftrightarrow>
     step_counter x \<le> step_counter y
     \<and> epsilon y = (decay_once cfg ^^ nat (step_counter y - step_counter x)) (epsilon x)"

text \<open>
  Lines 163--165: what holds of the bias-correction exponent throughout a run that starts
  with it in \<open>[0, 1]\<close>, and the relation "the exponent did not decrease".
\<close>

definition beta_inv :: "hparams \<Rightarrow> ('env, 'net, 'buf, 'rng) state \<Rightarrow> bool" where
  "beta_inv cfg x \<longleftrightarrow>
     0 \<le> step_counter x \<and> 0 \<le> beta x \<and> beta x \<le> 1
     \<and> (PER cfg \<and> TOTAL_TIMESTEPS cfg \<le> step_counter x \<longrightarrow> beta x = 1)"

definition beta_rel ::
  "hparams \<Rightarrow> ('env, 'net, 'buf, 'rng) state \<Rightarrow> ('env, 'net, 'buf, 'rng) state \<Rightarrow> bool" where
  "beta_rel cfg x y \<longleftrightarrow>
     (0 < TOTAL_TIMESTEPS cfg \<and> beta_inv cfg x \<longrightarrow> beta_inv cfg y \<and> beta x \<le> beta y)"

text \<open>
  The same collaborators, with the \<open>truncated\<close> flag of every \<^verbatim>\<open>env.step\<close> replaced by
  an arbitrary one.
\<close>

definition set_trunc ::
  "(int \<Rightarrow> 'env \<Rightarrow> bool) \<Rightarrow> ('obs, 'env, 'net, 'buf, 'rng) collab
     \<Rightarrow> ('obs, 'env, 'net, 'buf, 'rng) collab" where
  "set_trunc f c =
     c\<lparr>env_step := (\<lambda>a e. case env_step c a e of
                              ((next_s, rew, done, trunc), e1) \<Rightarrow> ((next_s, rew, done, f a e), e1))\<rparr>"

text \<open>
  The same collaborators, with \<^verbatim>\<open>env.reset\<close> replaced by an arbitrary function \<open>g\<close> on
  every seed but \<open>k\<close>.
\<close>

definition only_seed ::
  "int \<Rightarrow> (int \<Rightarrow> 'env \<Rightarrow> 'obs \<times> 'env) \<Rightarrow> ('obs, 'env, 'net, 'buf, 'rng) collab
     \<Rightarrow> ('obs, 'env, 'net, 'buf, 'rng) collab" where
  "only_seed k g c =
     c\<lparr>env_reset := (\<lambda>seed e. if seed = k then env_reset c seed e else g seed e)\<rparr>"

section \<open>Properties\<close>

subsection \<open>Row maximum, arg-max and gather\<close>

lemma max_from_inv:
  assumes "length pre = nat i" "0 \<le> mi" "mi < i" "pre ! nat mi = m" "m = Max (set pre)"
    "\<forall>j < nat mi. pre ! j < m"
    "max_from m mi i qs = (v, a)"
  shows "0 \<le> a \<and> a < int (length (pre @ qs)) \<and> (pre @ qs) ! nat a = v
         \<and> v = Max (set (pre @ qs)) \<and> (\<forall>j < nat a. (pre @ qs) ! j < v)"
  using assms
proof (induction qs arbitrary: pre m mi i)
  case Nil
  then show ?case by auto
next
  case (Cons q qs)
  have ne: "pre \<noteq> []" using Cons.prems by auto
  show ?case
  proof (cases "m < q")
    case True
    have step: "max_from q i (i + 1) qs = (v, a)" using Cons.prems(7) True by simp
    have "Max (set (pre @ [q])) = max q (Max (set pre))" using ne by simp
    then have mx: "q = Max (set (pre @ [q]))"
      using True Cons.prems(5) by simp
    have lt: "\<forall>j < nat i. (pre @ [q]) ! j < q"
    proof (intro allI impI)
      fix j assume "j < nat i"
      then have "j < length pre" using Cons.prems(1) by simp
      then have "pre ! j \<le> m" using Cons.prems(5) by simp
      then show "(pre @ [q]) ! j < q" using True \<open>j < length pre\<close> by (simp add: nth_append)
    qed
    have "0 \<le> a \<and> a < int (length ((pre @ [q]) @ qs)) \<and> ((pre @ [q]) @ qs) ! nat a = v
         \<and> v = Max (set ((pre @ [q]) @ qs)) \<and> (\<forall>j < nat a. ((pre @ [q]) @ qs) ! j < v)"
      apply (rule Cons.IH[of "pre @ [q]" "i + 1" i q])
      using Cons.prems(1,2,3) mx lt step by (auto simp: nth_append)
    then show ?thesis by auto
  next
    case False
    have step: "max_from m mi (i + 1) qs = (v, a)" using Cons.prems(7) False by simp
    have "Max (set (pre @ [q])) = max q (Max (set pre))" using ne by simp
    then have mx: "m = Max (set (pre @ [q]))"
      using False Cons.prems(5) by simp
    have "0 \<le> a \<and> a < int (length ((pre @ [q]) @ qs)) \<and> ((pre @ [q]) @ qs) ! nat a = v
         \<and> v = Max (set ((pre @ [q]) @ qs)) \<and> (\<forall>j < nat a. ((pre @ [q]) @ qs) ! j < v)"
      apply (rule Cons.IH[of "pre @ [q]" "i + 1" mi m])
      using Cons.prems(1,2,3,4,6) mx step by (auto simp: nth_append)
    then show ?thesis by auto
  qed
qed

lemma row_max_Inr:
  assumes "row_max row = Inr (v, a)"
  shows "0 \<le> a \<and> a < int (length row) \<and> row ! nat a = v \<and> v = Max (set row)
         \<and> (\<forall>j < nat a. row ! j < v)"
proof (cases row)
  case Nil
  then show ?thesis using assms by simp
next
  case (Cons q qs)
  then have "max_from q 0 1 qs = (v, a)" using assms by simp
  have "0 \<le> a \<and> a < int (length ([q] @ qs)) \<and> ([q] @ qs) ! nat a = v
         \<and> v = Max (set ([q] @ qs)) \<and> (\<forall>j < nat a. ([q] @ qs) ! j < v)"
    by (rule max_from_inv[of "[q]" 1 0 q qs v a]) (use \<open>max_from q 0 1 qs = (v, a)\<close> in auto)
  then show ?thesis unfolding Cons by auto
qed



lemma torch_max_Inr:
  "torch_max rows = Inr (vs, is) \<Longrightarrow>
     length vs = length rows \<and> length is = length rows
     \<and> (\<forall>k < length rows. row_max (rows ! k) = Inr (vs ! k, is ! k))"
proof (induction rows arbitrary: vs "is")
  case Nil
  then show ?case by simp
next
  case (Cons row rows)
  from Cons.prems obtain v i vs' is' where
    rm: "row_max row = Inr (v, i)" and tm: "torch_max rows = Inr (vs', is')"
    and eq: "vs = v # vs'" "is = i # is'"
    by (auto split: sum.splits prod.splits)
  from Cons.IH[OF tm] have ih: "length vs' = length rows" "length is' = length rows"
    "\<forall>k < length rows. row_max (rows ! k) = Inr (vs' ! k, is' ! k)" by auto
  show ?case
  proof (intro conjI allI impI)
    fix k assume "k < length (row # rows)"
    then show "row_max ((row # rows) ! k) = Inr (vs ! k, is ! k)"
      using rm ih(3) eq by (cases k) auto
  qed (use ih eq in auto)
qed

lemma torch_max_Inl: "torch_max rows = Inl e \<Longrightarrow> e = RuntimeError"
proof (induction rows)
  case Nil
  then show ?case by simp
next
  case (Cons row rows)
  then show ?case
    by (cases row) (auto split: sum.splits prod.splits)
qed


lemma torch_gather_nth:
  assumes "length index = length input"
    and "\<forall>k < length input. 0 \<le> index ! k \<and> index ! k < int (length (input ! k))"
  shows "\<exists>out. torch_gather input index = Inr out \<and> length out = length input
           \<and> (\<forall>k < length input. out ! k = input ! k ! nat (index ! k))"
proof -
  have "list_all (\<lambda>(row, i). 0 \<le> i \<and> i < int (length row)) (zip input index)"
    using assms by (auto simp: list_all_length)
  then have "torch_gather input index = Inr (map (\<lambda>(row, i). row ! nat i) (zip input index))"
    using assms(1) by (simp add: torch_gather_def)
  then show ?thesis using assms(1) by simp
qed

lemma torch_gather_max:
  assumes "torch_max rows = Inr (vs, is)"
  shows "torch_gather rows is = Inr vs"
proof -
  note tm = torch_max_Inr[OF assms]
  have rm: "\<And>k. k < length rows \<Longrightarrow> 0 \<le> is ! k \<and> is ! k < int (length (rows ! k))
             \<and> rows ! k ! nat (is ! k) = vs ! k"
    using tm row_max_Inr by blast
  obtain out where out: "torch_gather rows is = Inr out" "length out = length rows"
    "\<forall>k < length rows. out ! k = rows ! k ! nat (is ! k)"
    using torch_gather_nth[of "is" rows] tm rm by auto
  have "out = vs"
    using out tm rm by (auto simp: list_eq_iff_nth_eq)
  then show ?thesis using out(1) by simp
qed

lemma compute_q_ns_same_net:
  "compute_q_ns True f f ns = compute_q_ns False f f ns"
proof (cases "torch_max (f ns)")
  case (Inl e)
  then show ?thesis by (simp add: compute_q_ns_def)
next
  case (Inr p)
  obtain vs "is" where p: "p = (vs, is)" by (cases p)
  with Inr have "torch_gather (f ns) is = Inr vs" by (simp add: torch_gather_max)
  then show ?thesis using Inr p by (simp add: compute_q_ns_def)
qed




subsection \<open>The TD target\<close>













subsection \<open>What each phase of an environment step returns\<close>

lemma gradient_update_Inr:
  assumes "gradient_update cfg c st = Inr st'"
  shows "\<exists>buf r net. st' = st\<lparr>exp_replay := buf, rng := r, online_qnet := net\<rparr>"
proof -
  obtain b buf1 rng1 where s: "sample_experience c (BATCH_SIZE cfg) (beta st) (exp_replay st) (rng st) = (b, buf1, rng1)"
    by (cases "sample_experience c (BATCH_SIZE cfg) (beta st) (exp_replay st) (rng st)")
  show ?thesis
    using assms unfolding gradient_update_def s Let_def prod.case
    by (simp split: sum.splits) blast
qed


lemma update_target_Inr:
  assumes "update_target cfg st = Inr st1"
  shows "UPDATE_TARGET cfg \<noteq> 0"
    and "st1 = (if (lstep_counter st + 1) mod UPDATE_TARGET cfg = 0
                then st\<lparr>lstep_counter := lstep_counter st + 1, target_qnet := online_qnet st\<rparr>
                else st\<lparr>lstep_counter := lstep_counter st + 1\<rparr>)"
  using assms by (auto simp: update_target_def Let_def split: if_splits)

lemma decay_epsilon_Inr:
  assumes "decay_epsilon cfg st = Inr st'"
  shows "EXPLORE cfg \<noteq> 0"
    and "st' = st\<lparr>epsilon := max (FIN_EPS cfg)
                 (epsilon st - (INIT_EPS cfg - FIN_EPS cfg) / of_int (EXPLORE cfg))\<rparr>"
  using assms by (auto simp: decay_epsilon_def split: if_splits)

lemma anneal_beta_Inr:
  assumes "anneal_beta cfg st = Inr st'"
  shows "st' = (if PER cfg
                then st\<lparr>beta := beta st + of_int (step_counter st) / of_int (TOTAL_TIMESTEPS cfg)
                                            * (1 - beta st)\<rparr>
                else st)"
    and "PER cfg \<longrightarrow> TOTAL_TIMESTEPS cfg \<noteq> 0"
  using assms by (auto simp: anneal_beta_def Let_def split: if_splits)

lemma learn_Inr:
  assumes "learn cfg c st = Inr st'"
  shows "UPDATE_TARGET cfg \<noteq> 0"
    and "\<exists>buf r net. st' =
     (if (lstep_counter st + 1) mod UPDATE_TARGET cfg = 0
      then st\<lparr>lstep_counter := lstep_counter st + 1, target_qnet := online_qnet st\<rparr>
      else st\<lparr>lstep_counter := lstep_counter st + 1\<rparr>)
     \<lparr>exp_replay := buf, rng := r, online_qnet := net\<rparr>"
proof -
  from assms obtain st1 where u: "update_target cfg st = Inr st1"
    and g: "gradient_update cfg c st1 = Inr st'"
    unfolding learn_def by (cases "update_target cfg st") simp_all
  show "UPDATE_TARGET cfg \<noteq> 0" using update_target_Inr(1)[OF u] .
  from gradient_update_Inr[OF g] obtain buf r net where
    "st' = st1\<lparr>exp_replay := buf, rng := r, online_qnet := net\<rparr>" by blast
  then show "\<exists>buf r net. st' =
     (if (lstep_counter st + 1) mod UPDATE_TARGET cfg = 0
      then st\<lparr>lstep_counter := lstep_counter st + 1, target_qnet := online_qnet st\<rparr>
      else st\<lparr>lstep_counter := lstep_counter st + 1\<rparr>)
     \<lparr>exp_replay := buf, rng := r, online_qnet := net\<rparr>"
    unfolding update_target_Inr(2)[OF u] by blast
qed

lemma train_step_cases:
  assumes "train_step cfg c st s er = Inr (st', s', er', dn)"
  obtains a rng1 rew trunc env1 due st2 st3 st4 where
    "sample_discrete_action c (online_qnet st) s (epsilon st) (n_actions c) (rng st) = (a, rng1)"
    "env_step c a (env st) = ((s', rew, dn, trunc), env1)"
    "st2 = st\<lparr>step_counter := step_counter st + 1, rng := rng1, env := env1,
               exp_replay := insert_exp c s s' a rew dn (exp_replay st)\<rparr>"
    "learn_due cfg c st2 = Inr due"
    "(if due then learn cfg c st2 else Inr st2) = Inr st3"
    "decay_epsilon cfg st3 = Inr st4"
    "anneal_beta cfg st4 = Inr st'"
    "er' = er + rew"
proof -
  obtain a rng1 where a: "sample_discrete_action c (online_qnet st) s (epsilon st) (n_actions c) (rng st) = (a, rng1)"
    by (cases "sample_discrete_action c (online_qnet st) s (epsilon st) (n_actions c) (rng st)")
  obtain next_s rew d trunc env1 where e: "env_step c a (env st) = ((next_s, rew, d, trunc), env1)"
    by (metis prod.exhaust)
  define st2 where "st2 = st\<lparr>step_counter := step_counter st + 1, rng := rng1, env := env1,
               exp_replay := insert_exp c s next_s a rew d (exp_replay st)\<rparr>"
  have ts: "train_step cfg c st s er =
      (case learn_due cfg c st2 of
                  Inl e \<Rightarrow> Inl e
                | Inr due \<Rightarrow>
                    (case (if due then learn cfg c st2 else Inr st2) of
                       Inl e \<Rightarrow> Inl e
                     | Inr st3 \<Rightarrow>
                         (case decay_epsilon cfg st3 of
                            Inl e \<Rightarrow> Inl e
                          | Inr st4 \<Rightarrow>
                              (case anneal_beta cfg st4 of
                                 Inl e \<Rightarrow> Inl e
                               | Inr st5 \<Rightarrow> Inr (st5, next_s, er + rew, d)))))"
    unfolding train_step_def Let_def st2_def by (simp add: a e cong: sum.case_cong if_cong)
  from assms obtain due where 1: "learn_due cfg c st2 = Inr due"
    unfolding ts by (cases "learn_due cfg c st2") simp_all
  from assms obtain st3 where 2: "(if due then learn cfg c st2 else Inr st2) = Inr st3"
    unfolding ts 1 by (cases "(if due then learn cfg c st2 else Inr st2)") simp_all
  from assms obtain st4 where 3: "decay_epsilon cfg st3 = Inr st4"
    unfolding ts 1 using 2 by (cases "decay_epsilon cfg st3") simp_all
  from assms obtain st5 where 4: "anneal_beta cfg st4 = Inr st5"
    unfolding ts 1 using 2 3 by (cases "anneal_beta cfg st4") simp_all
  from assms have 5: "st5 = st'" "next_s = s'" "er' = er + rew" "d = dn"
    unfolding ts 1 using 2 3 4 by simp_all
  show thesis
    using that[OF a _ _ _ _ _ _ 5(3)] e 1 2 3 4 5 st2_def by blast
qed

lemma train_step_view:
  assumes ts: "train_step cfg c st s er = Inr (st', s', er', dn)"
  obtains a rng1 rew trunc env1 due where
    "sample_discrete_action c (online_qnet st) s (epsilon st) (n_actions c) (rng st) = (a, rng1)"
    "env_step c a (env st) = ((s', rew, dn, trunc), env1)"
    "er' = er + rew"
    "learn_due cfg c (st\<lparr>step_counter := step_counter st + 1, rng := rng1, env := env1,
               exp_replay := insert_exp c s s' a rew dn (exp_replay st)\<rparr>) = Inr due"
    "lstep_counter st' = (if due then lstep_counter st + 1 else lstep_counter st)"
    "target_qnet st' = (if due \<and> (lstep_counter st + 1) mod UPDATE_TARGET cfg = 0
                        then online_qnet st else target_qnet st)"
    "\<not> due \<longrightarrow> online_qnet st' = online_qnet st
              \<and> exp_replay st' = insert_exp c s s' a rew dn (exp_replay st) \<and> rng st' = rng1"
    "due \<longrightarrow> UPDATE_TARGET cfg \<noteq> 0"
    "step_counter st' = step_counter st + 1"
    "epoch_counter st' = epoch_counter st \<and> lr st' = lr st \<and> env st' = env1"
    "EXPLORE cfg \<noteq> 0"
    "epsilon st' = max (FIN_EPS cfg)
                 (epsilon st - (INIT_EPS cfg - FIN_EPS cfg) / of_int (EXPLORE cfg))"
    "beta st' = (if PER cfg
                 then beta st + of_int (step_counter st + 1) / of_int (TOTAL_TIMESTEPS cfg)
                                  * (1 - beta st)
                 else beta st)"
    "PER cfg \<longrightarrow> TOTAL_TIMESTEPS cfg \<noteq> 0"
    "accum_rew st' = accum_rew st \<and> accum_eval_rew st' = accum_eval_rew st
       \<and> accum_steps st' = accum_steps st"
proof -
  from ts obtain a rng1 rew trunc env1 due st2 st3 st4 where
    a: "sample_discrete_action c (online_qnet st) s (epsilon st) (n_actions c) (rng st) = (a, rng1)"
    and e: "env_step c a (env st) = ((s', rew, dn, trunc), env1)"
    and st2: "st2 = st\<lparr>step_counter := step_counter st + 1, rng := rng1, env := env1,
               exp_replay := insert_exp c s s' a rew dn (exp_replay st)\<rparr>"
    and due: "learn_due cfg c st2 = Inr due"
    and l: "(if due then learn cfg c st2 else Inr st2) = Inr st3"
    and d: "decay_epsilon cfg st3 = Inr st4"
    and b: "anneal_beta cfg st4 = Inr st'"
    and er: "er' = er + rew"
    by (rule train_step_cases)
  note d2 = decay_epsilon_Inr[OF d]
  note b2 = anneal_beta_Inr[OF b]
  have st3: "\<exists>buf r net. st3 = (if due then
        (if (lstep_counter st2 + 1) mod UPDATE_TARGET cfg = 0
         then st2\<lparr>lstep_counter := lstep_counter st2 + 1, target_qnet := online_qnet st2\<rparr>
         else st2\<lparr>lstep_counter := lstep_counter st2 + 1\<rparr>)
        \<lparr>exp_replay := buf, rng := r, online_qnet := net\<rparr> else st2)"
    using l learn_Inr(2)[of cfg c st2 st3] by (cases due) auto
  have ut: "due \<longrightarrow> UPDATE_TARGET cfg \<noteq> 0"
    using l learn_Inr(1)[of cfg c st2 st3] by (cases due) auto
  from st3 obtain buf r net where st3': "st3 = (if due then
        (if (lstep_counter st2 + 1) mod UPDATE_TARGET cfg = 0
         then st2\<lparr>lstep_counter := lstep_counter st2 + 1, target_qnet := online_qnet st2\<rparr>
         else st2\<lparr>lstep_counter := lstep_counter st2 + 1\<rparr>)
        \<lparr>exp_replay := buf, rng := r, online_qnet := net\<rparr> else st2)" by blast
  have f1: "lstep_counter st' = (if due then lstep_counter st + 1 else lstep_counter st)"
    unfolding b2(1) d2(2) st3' st2 by simp
  have f2: "target_qnet st' = (if due \<and> (lstep_counter st + 1) mod UPDATE_TARGET cfg = 0
                        then online_qnet st else target_qnet st)"
    unfolding b2(1) d2(2) st3' st2 by simp
  have f3: "\<not> due \<longrightarrow> online_qnet st' = online_qnet st
              \<and> exp_replay st' = insert_exp c s s' a rew dn (exp_replay st) \<and> rng st' = rng1"
    unfolding b2(1) d2(2) st3' st2 by simp
  have f4: "step_counter st' = step_counter st + 1"
    unfolding b2(1) d2(2) st3' st2 by simp
  have f5: "epoch_counter st' = epoch_counter st \<and> lr st' = lr st \<and> env st' = env1"
    unfolding b2(1) d2(2) st3' st2 by simp
  have f6: "epsilon st' = max (FIN_EPS cfg)
                 (epsilon st - (INIT_EPS cfg - FIN_EPS cfg) / of_int (EXPLORE cfg))"
    unfolding b2(1) d2(2) st3' st2 by simp
  have f7: "beta st' = (if PER cfg
                 then beta st + of_int (step_counter st + 1) / of_int (TOTAL_TIMESTEPS cfg)
                                  * (1 - beta st)
                 else beta st)"
    unfolding b2(1) d2(2) st3' st2 by simp
  have f8: "accum_rew st' = accum_rew st \<and> accum_eval_rew st' = accum_eval_rew st
       \<and> accum_steps st' = accum_steps st"
    unfolding b2(1) d2(2) st3' st2 by simp
  show thesis
    by (rule that[OF a e er due[unfolded st2] f1 f2 f3 ut f4 f5 d2(1) f6 f7 b2(2) f8])
qed

subsection \<open>The episode loop and the episode\<close>

lemma for_loop_rel:
  assumes refl: "\<And>x. R x x"
    and trans: "\<And>x y z. R x y \<Longrightarrow> R y z \<Longrightarrow> R x z"
    and step: "\<And>x s er y s' er' dn. train_step cfg c x s er = Inr (y, s', er', dn) \<Longrightarrow> R x y"
  shows "for_loop cfg c n st s er = Inr (st', s', er') \<Longrightarrow> R st st'"
proof (induction n arbitrary: st s er)
  case 0
  then show ?case using refl by simp
next
  case (Suc n)
  from Suc.prems obtain st1 s1 er1 dn where
    ts: "train_step cfg c st s er = Inr (st1, s1, er1, dn)"
    by (cases "train_step cfg c st s er") auto
  show ?case
  proof (cases dn)
    case True
    then have "st' = st1" using Suc.prems ts by simp
    then show ?thesis using step[OF ts] by simp
  next
    case False
    then have "for_loop cfg c n st1 s1 er1 = Inr (st', s', er')" using Suc.prems ts by simp
    from Suc.IH[OF this] step[OF ts] show ?thesis using trans by blast
  qed
qed

lemma decay_lr_Inr:
  assumes "decay_lr cfg st = Inr st'"
  shows "st' = (if IS_LR_DECAY cfg
                then st\<lparr>lr := lr st / (1 + LR_DECAY cfg * of_int (epoch_counter st))\<rparr>
                else st)"
  using assms by (auto simp: decay_lr_def split: if_splits)

lemma evaluate_Inr:
  assumes "evaluate cfg c env_seed st = Inr st'"
  shows "PLOT_INTERVAL cfg \<noteq> 0"
    and "st' = (if epoch_counter st mod PLOT_INTERVAL cfg = 0
                then st\<lparr>accum_eval_rew := accum_eval_rew st @
                          [fst (eval_model c (online_qnet st) (env st) (rng st) (N_STEPS cfg)
                                  (n_actions c) env_seed)],
                        env := fst (snd (eval_model c (online_qnet st) (env st) (rng st)
                                  (N_STEPS cfg) (n_actions c) env_seed)),
                        rng := snd (snd (eval_model c (online_qnet st) (env st) (rng st)
                                  (N_STEPS cfg) (n_actions c) env_seed))\<rparr>
                else st)"
  using assms unfolding evaluate_def
  by (auto split: if_splits prod.splits)

lemma episode_cases:
  assumes "episode cfg c env_seed st = Inr st'"
  obtains s0 env0 st2 s2 er2 st3 where
    "env_reset c env_seed (env st) = (s0, env0)"
    "for_loop cfg c (nat (N_STEPS cfg))
       (st\<lparr>epoch_counter := epoch_counter st + 1, env := env0\<rparr>) s0 0 = Inr (st2, s2, er2)"
    "decay_lr cfg st2 = Inr st3"
    "evaluate cfg c env_seed
       (st3\<lparr>accum_rew := accum_rew st3 @ [er2],
            accum_steps := accum_steps st3 @ [step_counter st3]\<rparr>) = Inr st'"
proof -
  obtain s0 env0 where r: "env_reset c env_seed (env st) = (s0, env0)"
    by (cases "env_reset c env_seed (env st)")
  let ?st1 = "st\<lparr>epoch_counter := epoch_counter st + 1, env := env0\<rparr>"
  have ep: "episode cfg c env_seed st =
     (case for_loop cfg c (nat (N_STEPS cfg)) ?st1 s0 0 of
             Inl e \<Rightarrow> Inl e
           | Inr (st2, s', eps_rew) \<Rightarrow>
               (case decay_lr cfg st2 of
                  Inl e \<Rightarrow> Inl e
                | Inr st3 \<Rightarrow>
                    evaluate cfg c env_seed
                      (st3\<lparr>accum_rew := accum_rew st3 @ [eps_rew],
                           accum_steps := accum_steps st3 @ [step_counter st3]\<rparr>)))"
    unfolding episode_def Let_def by (simp add: r)
  from assms obtain st2 s2 er2 where 1:
    "for_loop cfg c (nat (N_STEPS cfg)) ?st1 s0 0 = Inr (st2, s2, er2)"
    unfolding ep by (cases "for_loop cfg c (nat (N_STEPS cfg)) ?st1 s0 0") auto
  from assms obtain st3 where 2: "decay_lr cfg st2 = Inr st3"
    unfolding ep 1 by (cases "decay_lr cfg st2") simp_all
  from assms have 3: "evaluate cfg c env_seed
       (st3\<lparr>accum_rew := accum_rew st3 @ [er2],
            accum_steps := accum_steps st3 @ [step_counter st3]\<rparr>) = Inr st'"
    unfolding ep 1 using 2 by simp
  show thesis using that[OF r 1 2 3] .
qed

text \<open>
  A relation between the variables before and after that every environment step
  establishes, and that does not look at the fields the rest of an episode writes,
  holds across the episode.
\<close>

lemma episode_rel:
  assumes refl: "\<And>x. R x x"
    and trans: "\<And>x y z. R x y \<Longrightarrow> R y z \<Longrightarrow> R x z"
    and step: "\<And>x s er y s' er' dn. train_step cfg c x s er = Inr (y, s', er', dn) \<Longrightarrow> R x y"
    and frame: "\<And>x ec e r lrate ar ae az.
        R x (x\<lparr>epoch_counter := ec, env := e, rng := r, lr := lrate, accum_rew := ar,
               accum_eval_rew := ae, accum_steps := az\<rparr>)"
    and ep: "episode cfg c env_seed st = Inr st'"
  shows "R st st'"
proof -
  from ep obtain s0 env0 st2 s2 er2 st3 where
    r: "env_reset c env_seed (env st) = (s0, env0)"
    and fl: "for_loop cfg c (nat (N_STEPS cfg))
       (st\<lparr>epoch_counter := epoch_counter st + 1, env := env0\<rparr>) s0 0 = Inr (st2, s2, er2)"
    and dl: "decay_lr cfg st2 = Inr st3"
    and ev: "evaluate cfg c env_seed
       (st3\<lparr>accum_rew := accum_rew st3 @ [er2],
            accum_steps := accum_steps st3 @ [step_counter st3]\<rparr>) = Inr st'"
    by (rule episode_cases)
  have 1: "R st (st\<lparr>epoch_counter := epoch_counter st + 1, env := env0\<rparr>)"
    using frame[where x = st and ec = "epoch_counter st + 1" and e = env0 and r = "rng st"
        and lrate = "lr st" and ar = "accum_rew st" and ae = "accum_eval_rew st"
        and az = "accum_steps st"] by simp
  have 2: "R (st\<lparr>epoch_counter := epoch_counter st + 1, env := env0\<rparr>) st2"
  proof (rule for_loop_rel[where R = R and cfg = cfg and c = c, OF _ _ _ fl])
    show "\<And>x. R x x" by (rule refl)
    show "\<And>x y z. R x y \<Longrightarrow> R y z \<Longrightarrow> R x z" by (rule trans)
    show "\<And>x s er y s' er' dn. train_step cfg c x s er = Inr (y, s', er', dn) \<Longrightarrow> R x y"
      by (rule step)
  qed
  have "\<exists>ec e r lrate ar ae az. st' = st2\<lparr>epoch_counter := ec, env := e, rng := r, lr := lrate,
               accum_rew := ar, accum_eval_rew := ae, accum_steps := az\<rparr>"
  proof -
    have "\<exists>lrate. st3 = st2\<lparr>lr := lrate\<rparr>"
    proof (cases "IS_LR_DECAY cfg")
      case True
      then show ?thesis using decay_lr_Inr[OF dl] by (intro exI) simp
    next
      case False
      then have "st3 = st2\<lparr>lr := lr st2\<rparr>" using decay_lr_Inr[OF dl] by simp
      then show ?thesis by (intro exI)
    qed
    then obtain lrate where a: "st3 = st2\<lparr>lr := lrate\<rparr>" by blast
    let ?st4 = "st3\<lparr>accum_rew := accum_rew st3 @ [er2],
            accum_steps := accum_steps st3 @ [step_counter st3]\<rparr>"
    have "\<exists>ae e r'. st' = ?st4\<lparr>accum_eval_rew := ae, env := e, rng := r'\<rparr>"
    proof (cases "epoch_counter ?st4 mod PLOT_INTERVAL cfg = 0")
      case True
      let ?ev = "eval_model c (online_qnet ?st4) (env ?st4) (rng ?st4) (N_STEPS cfg)
                   (n_actions c) env_seed"
      show ?thesis
        apply (rule exI[of _ "accum_eval_rew ?st4 @ [fst ?ev]"])
        apply (rule exI[of _ "fst (snd ?ev)"], rule exI[of _ "snd (snd ?ev)"])
        using evaluate_Inr(2)[OF ev] True by simp
    next
      case False
      have "st' = ?st4" using evaluate_Inr(2)[OF ev] False by simp
      then have "st' = ?st4\<lparr>accum_eval_rew := accum_eval_rew ?st4, env := env ?st4,
                         rng := rng ?st4\<rparr>" by simp
      then show ?thesis by (intro exI)
    qed
    then obtain ae e r' where b: "st' = ?st4\<lparr>accum_eval_rew := ae, env := e, rng := r'\<rparr>"
      by blast
    have "st' = st2\<lparr>epoch_counter := epoch_counter st2, env := e, rng := r', lr := lrate,
               accum_rew := accum_rew st2 @ [er2], accum_eval_rew := ae,
               accum_steps := accum_steps st2 @ [step_counter st2]\<rparr>"
      unfolding b a by simp
    then show ?thesis by blast
  qed
  then have 3: "R st2 st'" using frame by blast
  from trans[OF trans[OF 1 2] 3] show ?thesis .
qed

subsection \<open>The whole run\<close>

lemma while_loop_rel:
  assumes refl: "\<And>x. R x x"
    and trans: "\<And>x y z. R x y \<Longrightarrow> R y z \<Longrightarrow> R x z"
    and step: "\<And>x y. b x \<Longrightarrow> body x = Inr y \<Longrightarrow> R x y"
    and run: "while_loop b body st = Some (Inr st')"
  shows "R st st' \<and> \<not> b st'"
proof -
  have "b = b \<and> body = body
          \<longrightarrow> (\<forall>y. (Inr st' :: py_error + 'a) = Inr y \<longrightarrow> R st y \<and> \<not> b y)"
  proof (rule while_loop.raw_induct[where
        P = "\<lambda>b0 body0 x r. b0 = b \<and> body0 = body \<longrightarrow> (\<forall>y. r = Inr y \<longrightarrow> R x y \<and> \<not> b y)",
        OF _ run])
    fix w b1 body1 x r
    assume IH: "\<And>b2 body2 x2 r2. w b2 body2 x2 = Some r2 \<Longrightarrow>
                  b2 = b \<and> body2 = body \<longrightarrow> (\<forall>y. r2 = Inr y \<longrightarrow> R x2 y \<and> \<not> b y)"
      and eq: "(if b1 x then case body1 x of Inl e \<Rightarrow> Some (Inl e) | Inr x' \<Rightarrow> w b1 body1 x'
               else Some (Inr x)) = Some r"
    show "b1 = b \<and> body1 = body \<longrightarrow> (\<forall>y. r = Inr y \<longrightarrow> R x y \<and> \<not> b y)"
    proof (intro allI impI)
      fix y assume bb: "b1 = b \<and> body1 = body" and y: "r = Inr y"
      show "R x y \<and> \<not> b y"
      proof (cases "b x")
        case False
        then show ?thesis using eq bb y refl by simp
      next
        case True
        show ?thesis
        proof (cases "body x")
          case (Inl e)
          then show ?thesis using eq bb y True by simp
        next
          case (Inr x')
          then have "w b body x' = Some (Inr y)" using eq bb y True by simp
          then have "R x' y \<and> \<not> b y" using IH[of b body x' "Inr y"] by simp
          then show ?thesis using step[OF True Inr] trans by blast
        qed
      qed
    qed
  qed
  then show ?thesis by simp
qed

lemma main_loop_rel:
  assumes refl: "\<And>x. R x x"
    and trans: "\<And>x y z. R x y \<Longrightarrow> R y z \<Longrightarrow> R x z"
    and step: "\<And>x s er y s' er' dn. train_step cfg c x s er = Inr (y, s', er', dn) \<Longrightarrow> R x y"
    and frame: "\<And>x ec e r lrate ar ae az.
        R x (x\<lparr>epoch_counter := ec, env := e, rng := r, lr := lrate, accum_rew := ar,
               accum_eval_rew := ae, accum_steps := az\<rparr>)"
    and run: "main_loop cfg c env_seed st = Some (Inr st')"
  shows "R st st' \<and> TOTAL_TIMESTEPS cfg \<le> step_counter st'"
proof -
  have "R st st' \<and> \<not> step_counter st' < TOTAL_TIMESTEPS cfg"
  proof (rule while_loop_rel[where R = R and body = "episode cfg c env_seed"
        and b = "\<lambda>st. step_counter st < TOTAL_TIMESTEPS cfg"])
    show "\<And>x. R x x" by (rule refl)
    show "\<And>x y z. R x y \<Longrightarrow> R y z \<Longrightarrow> R x z" by (rule trans)
    show "\<And>x y. step_counter x < TOTAL_TIMESTEPS cfg \<Longrightarrow> episode cfg c env_seed x = Inr y
            \<Longrightarrow> R x y"
    proof -
      fix x y assume ep: "episode cfg c env_seed x = Inr y"
      show "R x y"
      proof (rule episode_rel[where R = R and cfg = cfg and c = c, OF _ _ _ _ ep])
        show "\<And>x. R x x" by (rule refl)
        show "\<And>x y z. R x y \<Longrightarrow> R y z \<Longrightarrow> R x z" by (rule trans)
        show "\<And>x s er y s' er' dn. train_step cfg c x s er = Inr (y, s', er', dn) \<Longrightarrow> R x y"
          by (rule step)
        show "\<And>x ec e r lrate ar ae az.
          R x (x\<lparr>epoch_counter := ec, env := e, rng := r, lr := lrate, accum_rew := ar,
               accum_eval_rew := ae, accum_steps := az\<rparr>)" by (rule frame)
      qed
    qed
    show "while_loop (\<lambda>st. step_counter st < TOTAL_TIMESTEPS cfg) (episode cfg c env_seed) st
            = Some (Inr st')" using run by (simp add: main_loop_def)
  qed
  then show ?thesis by simp
qed

lemma init_state_fields:
  "step_counter (init_state cfg c) = 0" "epsilon (init_state cfg c) = INIT_EPS cfg"
  "beta (init_state cfg c) = PER_BETA cfg" "epoch_counter (init_state cfg c) = 0"
  "lstep_counter (init_state cfg c) = 0"
  by (simp_all add: init_state_def split: prod.splits)

lemma while_loop_terminates:
  fixes m :: "'s \<Rightarrow> nat"
  assumes dec: "\<And>x y. b x \<Longrightarrow> body x = Inr y \<Longrightarrow> m y < m x"
  shows "\<exists>r. while_loop b body st = Some r"
proof (induction "m st" arbitrary: st rule: less_induct)
  case less
  show ?case
  proof (cases "b st")
    case False
    then show ?thesis by (subst while_loop.simps) simp
  next
    case True
    show ?thesis
    proof (cases "body st")
      case (Inl e)
      then show ?thesis using True by (subst while_loop.simps) simp
    next
      case (Inr y)
      from dec[OF True Inr] have "\<exists>r. while_loop b body y = Some r" by (rule less)
      then show ?thesis using True Inr by (subst while_loop.simps) simp
    qed
  qed
qed

lemma while_loop_inv:
  assumes init: "I st"
    and step: "\<And>x y. I x \<Longrightarrow> b x \<Longrightarrow> body x = Inr y \<Longrightarrow> I y"
    and run: "while_loop b body st = Some r"
  shows "\<forall>y. r = Inr y \<longrightarrow> I y \<and> \<not> b y"
proof -
  have "b = b \<and> body = body \<and> I st \<longrightarrow> (\<forall>y. r = Inr y \<longrightarrow> I y \<and> \<not> b y)"
  proof (rule while_loop.raw_induct[where
        P = "\<lambda>b0 body0 x r. b0 = b \<and> body0 = body \<and> I x \<longrightarrow> (\<forall>y. r = Inr y \<longrightarrow> I y \<and> \<not> b y)",
        OF _ run])
    fix w b1 body1 x r
    assume IH: "\<And>b2 body2 x2 r2. w b2 body2 x2 = Some r2 \<Longrightarrow>
                  b2 = b \<and> body2 = body \<and> I x2 \<longrightarrow> (\<forall>y. r2 = Inr y \<longrightarrow> I y \<and> \<not> b y)"
      and eq: "(if b1 x then case body1 x of Inl e \<Rightarrow> Some (Inl e) | Inr x' \<Rightarrow> w b1 body1 x'
               else Some (Inr x)) = Some r"
    show "b1 = b \<and> body1 = body \<and> I x \<longrightarrow> (\<forall>y. r = Inr y \<longrightarrow> I y \<and> \<not> b y)"
    proof (intro allI impI)
      fix y assume bb: "b1 = b \<and> body1 = body \<and> I x" and y: "r = Inr y"
      show "I y \<and> \<not> b y"
      proof (cases "b x")
        case False
        then show ?thesis using eq bb y by simp
      next
        case True
        show ?thesis
        proof (cases "body x")
          case (Inl e)
          then show ?thesis using eq bb y True by simp
        next
          case (Inr x')
          then have "w b body x' = Some (Inr y)" using eq bb y True by simp
          moreover have "I x'" using step[OF _ True Inr] bb by simp
          ultimately show ?thesis using IH[of b body x' "Inr y"] by simp
        qed
      qed
    qed
  qed
  then show ?thesis using init by simp
qed

lemma while_loop_diverges:
  assumes init: "I st"
    and step: "\<And>x. I x \<Longrightarrow> b x \<and> (\<exists>y. body x = Inr y \<and> I y)"
  shows "while_loop b body st = None"
proof (cases "while_loop b body st")
  case None
  then show ?thesis .
next
  case (Some r)
  have "b = b \<and> body = body \<and> I st \<longrightarrow> False"
  proof (rule while_loop.raw_induct[where
        P = "\<lambda>b0 body0 x r. b0 = b \<and> body0 = body \<and> I x \<longrightarrow> False", OF _ Some])
    fix w b1 body1 x r
    assume IH: "\<And>b2 body2 x2 r2. w b2 body2 x2 = Some r2 \<Longrightarrow>
                  b2 = b \<and> body2 = body \<and> I x2 \<longrightarrow> False"
      and eq: "(if b1 x then case body1 x of Inl e \<Rightarrow> Some (Inl e) | Inr x' \<Rightarrow> w b1 body1 x'
               else Some (Inr x)) = Some r"
    show "b1 = b \<and> body1 = body \<and> I x \<longrightarrow> False"
    proof
      assume bb: "b1 = b \<and> body1 = body \<and> I x"
      from step[of x] bb obtain y where t: "b x" and y: "body x = Inr y" and iy: "I y" by blast
      from eq bb t y have "w b body y = Some r" by simp
      from IH[OF this] iy show False by simp
    qed
  qed
  then show ?thesis using init by simp
qed

lemma for_loop_steps:
  "for_loop cfg c n st s er = Inr (st', s', er') \<Longrightarrow>
     step_counter st' \<le> step_counter st + int n
     \<and> (0 < n \<longrightarrow> step_counter st < step_counter st')
     \<and> step_counter st \<le> step_counter st'"
proof (induction n arbitrary: st s er)
  case 0
  then show ?case by simp
next
  case (Suc n)
  from Suc.prems obtain st1 s1 er1 dn where
    ts: "train_step cfg c st s er = Inr (st1, s1, er1, dn)"
    by (cases "train_step cfg c st s er") auto
  from ts obtain due :: bool where sc: "step_counter st1 = step_counter st + 1"
    by (rule train_step_view)
  show ?case
  proof (cases dn)
    case True
    then have "st' = st1" using Suc.prems ts by simp
    then show ?thesis using sc by simp
  next
    case False
    then have "for_loop cfg c n st1 s1 er1 = Inr (st', s', er')" using Suc.prems ts by simp
    from Suc.IH[OF this] show ?thesis using sc by simp
  qed
qed

lemma episode_steps:
  assumes "episode cfg c env_seed st = Inr st'"
  shows "step_counter st' \<le> step_counter st + int (nat (N_STEPS cfg))"
    and "1 \<le> N_STEPS cfg \<Longrightarrow> step_counter st < step_counter st'"
    and "step_counter st \<le> step_counter st'"
proof -
  from assms obtain s0 env0 st2 s2 er2 st3 where
    fl: "for_loop cfg c (nat (N_STEPS cfg))
       (st\<lparr>epoch_counter := epoch_counter st + 1, env := env0\<rparr>) s0 0 = Inr (st2, s2, er2)"
    and d: "decay_lr cfg st2 = Inr st3"
    and ev: "evaluate cfg c env_seed
       (st3\<lparr>accum_rew := accum_rew st3 @ [er2],
            accum_steps := accum_steps st3 @ [step_counter st3]\<rparr>) = Inr st'"
    by (rule episode_cases)
  have 3: "step_counter st3 = step_counter st2"
    unfolding decay_lr_Inr[OF d] by simp
  have 4: "step_counter st' = step_counter st3"
    unfolding evaluate_Inr(2)[OF ev] by simp
  note f = for_loop_steps[OF fl]
  show "step_counter st' \<le> step_counter st + int (nat (N_STEPS cfg))"
    using f unfolding 4 3 by simp
  show "step_counter st < step_counter st'" if "1 \<le> N_STEPS cfg"
    using f that unfolding 4 3 by simp
  show "step_counter st \<le> step_counter st'"
    using f unfolding 4 3 by simp
qed

subsection \<open>Evaluating the concrete run\<close>

lemma demo_init: "init_state demo_cfg demo_collab = demo_st0\<lparr>epoch_counter := 0\<rparr>"
  by (simp add: init_state_def demo_cfg_def demo_collab_def demo_st0_def draw_env_seed_def)

lemma demo_q1: "compute_q_targ True (1/2) (forward demo_collab 0) (forward demo_collab 0)
   \<lparr>batch_s = [0], batch_ns = [1], batch_a = [0], batch_r = [1], batch_d = [0],
          batch_idx = [0], batch_isw = [1]\<rparr> = Inr [1]"
  by (simp add: demo_collab_def compute_q_targ_def compute_q_ns_def torch_gather_def td_target_def
          broadcast2_def)

lemma demo_step1: "train_step demo_cfg demo_collab demo_st0 0 0 = Inr (demo_st1, 1, 1, False)"
  by (simp add: train_step_def demo_cfg_def demo_collab_def demo_st0_def demo_st1_def
      learn_due_def learn_def update_target_def gradient_update_def decay_epsilon_def
      anneal_beta_def compute_q_targ_def compute_q_ns_def torch_gather_def td_target_def
      broadcast2_def Let_def)

lemma demo_step2: "train_step demo_cfg demo_collab demo_st1 1 1 = Inr (demo_st2, 2, 2, False)"
  by (simp add: train_step_def demo_cfg_def demo_collab_def demo_st1_def demo_st2_def
      learn_due_def learn_def update_target_def gradient_update_def decay_epsilon_def
      anneal_beta_def compute_q_targ_def compute_q_ns_def torch_gather_def td_target_def
      broadcast2_def Let_def)

lemmas demo_defs = train_step_def demo_cfg_def demo_collab_def
      learn_due_def learn_def update_target_def gradient_update_def decay_epsilon_def
      anneal_beta_def compute_q_targ_def compute_q_ns_def torch_gather_def td_target_def
      broadcast2_def Let_def

lemma demo_loop1: "for_loop demo_cfg demo_collab 1 demo_st0 0 0 = Inr (demo_st1, 1, 1)"
  by (simp add: demo_step1)

lemma demo_episode1:
  "episode (demo_cfg\<lparr>N_STEPS := 1\<rparr>) demo_collab 7 demo_st0 =
     Inr (demo_st1\<lparr>epoch_counter := 2, lr := 1 / 3, accum_rew := [1], accum_eval_rew := [1],
                   accum_steps := [1]\<rparr>)"
  by (simp add: episode_def decay_lr_def evaluate_def eval_model_def demo_defs
        demo_st0_def demo_st1_def)

lemma demo_loop2: "for_loop demo_cfg demo_collab 2 demo_st0 0 0 = Inr (demo_st2, 2, 2)"
  using demo_step1 demo_step2 by (simp add: numeral_2_eq_2)

lemma demo_episode2:
  "episode demo_cfg demo_collab 7 (demo_st0\<lparr>epoch_counter := 0\<rparr>) =
     Inr (demo_st2\<lparr>lr := 1 / 2, accum_rew := [2], accum_eval_rew := [2], accum_steps := [2]\<rparr>)"
proof -
  have st1: "(demo_st0\<lparr>epoch_counter := 0\<rparr>)
               \<lparr>epoch_counter := epoch_counter (demo_st0\<lparr>epoch_counter := 0\<rparr>) + 1\<rparr> = demo_st0"
    by (simp add: demo_st0_def)
  have r: "env_reset demo_collab 7 (env demo_st0) = (0, 0)"
    by (simp add: demo_collab_def)
  have e: "demo_st0\<lparr>env := 0\<rparr> = demo_st0"
    by (simp add: demo_st0_def)
  have n: "nat (N_STEPS demo_cfg) = 2" by (simp add: demo_cfg_def)
  have d: "decay_lr demo_cfg demo_st2 = Inr (demo_st2\<lparr>lr := 1 / 2\<rparr>)"
    by (simp add: decay_lr_def demo_cfg_def demo_st2_def)
  have ev: "evaluate demo_cfg demo_collab 7
              (demo_st2\<lparr>lr := 1 / 2\<rparr>
                 \<lparr>accum_rew := accum_rew (demo_st2\<lparr>lr := 1 / 2\<rparr>) @ [2],
                  accum_steps := accum_steps (demo_st2\<lparr>lr := 1 / 2\<rparr>)
                                   @ [step_counter (demo_st2\<lparr>lr := 1 / 2\<rparr>)]\<rparr>)
            = Inr (demo_st2\<lparr>lr := 1 / 2, accum_rew := [2], accum_eval_rew := [2],
                     accum_steps := [2]\<rparr>)"
    by (simp add: evaluate_def eval_model_def demo_cfg_def demo_collab_def demo_st2_def
          numeral_2_eq_2)
  show ?thesis
    unfolding episode_def Let_def st1 r prod.case e n demo_loop2 sum.case d ev ..
qed

lemma demo_main:
  "main demo_cfg demo_collab =
     Some (Inr (demo_st2\<lparr>lr := 1 / 2, accum_rew := [2], accum_eval_rew := [2],
                  accum_steps := [2]\<rparr>))"
proof -
  have s: "fst (draw_env_seed demo_cfg demo_collab) = 7"
    by (simp add: draw_env_seed_def demo_collab_def)
  have b0: "step_counter (demo_st0\<lparr>epoch_counter := 0\<rparr>) < TOTAL_TIMESTEPS demo_cfg"
    by (simp add: demo_st0_def demo_cfg_def)
  have b1: "\<not> step_counter (demo_st2\<lparr>lr := 1 / 2, accum_rew := [2], accum_eval_rew := [2],
                  accum_steps := [2]\<rparr>) < TOTAL_TIMESTEPS demo_cfg"
    by (simp add: demo_st2_def demo_cfg_def)
  show ?thesis
    unfolding main_def main_loop_def s demo_init
    apply (subst while_loop.simps)
    apply (simp only: b0 if_True demo_episode2 sum.case)
    apply (subst while_loop.simps)
    apply (simp only: b1 if_False)
    done
qed

subsection \<open>Target-network synchronization\<close>

lemma target_rel_refl: "target_rel cfg x x"
  by (simp add: target_rel_def)

lemma target_rel_trans: "target_rel cfg x y \<Longrightarrow> target_rel cfg y z \<Longrightarrow> target_rel cfg x z"
proof -
  assume xy: "target_rel cfg x y" and yz: "target_rel cfg y z"
  have le: "lstep_counter x \<le> lstep_counter y" "lstep_counter y \<le> lstep_counter z"
    using xy yz by (simp_all add: target_rel_def)
  have "target_qnet z = target_qnet x"
    if no: "\<forall>j. lstep_counter x < j \<and> j \<le> lstep_counter z \<longrightarrow> j mod UPDATE_TARGET cfg \<noteq> 0"
  proof -
    have "\<forall>j. lstep_counter x < j \<and> j \<le> lstep_counter y \<longrightarrow> j mod UPDATE_TARGET cfg \<noteq> 0"
      using no le by auto
    then have 1: "target_qnet y = target_qnet x" using xy by (simp add: target_rel_def)
    have "\<forall>j. lstep_counter y < j \<and> j \<le> lstep_counter z \<longrightarrow> j mod UPDATE_TARGET cfg \<noteq> 0"
      using no le by auto
    then have 2: "target_qnet z = target_qnet y" using yz by (simp add: target_rel_def)
    show ?thesis using 1 2 by simp
  qed
  then show ?thesis using le by (simp add: target_rel_def)
qed

lemma target_rel_step:
  assumes "train_step cfg c x s er = Inr (y, s', er', dn)"
  shows "target_rel cfg x y"
proof -
  from assms obtain due where
    l: "lstep_counter y = (if due then lstep_counter x + 1 else lstep_counter x)"
    and t: "target_qnet y = (if due \<and> (lstep_counter x + 1) mod UPDATE_TARGET cfg = 0
                        then online_qnet x else target_qnet x)"
    by (rule train_step_view)
  show ?thesis
  proof (cases due)
    case True
    have "(\<forall>j. lstep_counter x < j \<and> j \<le> lstep_counter x + 1 \<longrightarrow> j mod UPDATE_TARGET cfg \<noteq> 0)
         \<longrightarrow> (lstep_counter x + 1) mod UPDATE_TARGET cfg \<noteq> 0" by simp
    then show ?thesis unfolding target_rel_def l t using True by simp
  next
    case False
    then show ?thesis unfolding target_rel_def l t by simp
  qed
qed

lemma target_rel_frame:
  "target_rel cfg x (x\<lparr>epoch_counter := ec, env := e, rng := r, lr := lrate, accum_rew := ar,
               accum_eval_rew := ae, accum_steps := az\<rparr>)"
  by (simp add: target_rel_def)

text \<open>
  C3. The target network is overwritten by lines 126--129 exactly when the
  learning-update count, just incremented, is a multiple of \<open>UPDATE_TARGET\<close>; right
  after these lines it equals the online network. Over a whole environment step the
  target network becomes the online network the step started with when the step made a
  learning update whose count is such a multiple, and is unchanged otherwise. Over any
  number of loop iterations, and over a whole episode with its learning-rate decay and
  evaluation, the target network is unchanged when no learning-update count reached in
  between is a multiple of \<open>UPDATE_TARGET\<close>.
\<close>

theorem target_sync:
  "(update_target cfg st = Inr st1 \<longrightarrow>
      lstep_counter st1 = lstep_counter st + 1 \<and> online_qnet st1 = online_qnet st
      \<and> (lstep_counter st1 mod UPDATE_TARGET cfg = 0 \<longrightarrow> target_qnet st1 = online_qnet st1)
      \<and> (lstep_counter st1 mod UPDATE_TARGET cfg \<noteq> 0 \<longrightarrow> target_qnet st1 = target_qnet st))
   \<and> (train_step cfg c st s er = Inr (st2, s2, er2, dn) \<longrightarrow>
      (lstep_counter st2 = lstep_counter st \<or> lstep_counter st2 = lstep_counter st + 1)
      \<and> target_qnet st2 =
          (if lstep_counter st2 = lstep_counter st + 1
              \<and> lstep_counter st2 mod UPDATE_TARGET cfg = 0
           then online_qnet st else target_qnet st))
   \<and> (for_loop cfg c n st s er = Inr (st3, s3, er3) \<longrightarrow>
      (\<forall>j. lstep_counter st < j \<and> j \<le> lstep_counter st3 \<longrightarrow> j mod UPDATE_TARGET cfg \<noteq> 0) \<longrightarrow>
      target_qnet st3 = target_qnet st)
   \<and> (episode cfg c env_seed st = Inr st4 \<longrightarrow>
      (\<forall>j. lstep_counter st < j \<and> j \<le> lstep_counter st4 \<longrightarrow> j mod UPDATE_TARGET cfg \<noteq> 0) \<longrightarrow>
      target_qnet st4 = target_qnet st)"
proof (intro conjI impI)
  assume u: "update_target cfg st = Inr st1"
  note f = update_target_Inr(2)[OF u]
  show "lstep_counter st1 = lstep_counter st + 1" unfolding f by simp
  show "online_qnet st1 = online_qnet st" unfolding f by simp
  show "target_qnet st1 = online_qnet st1" if "lstep_counter st1 mod UPDATE_TARGET cfg = 0"
    using that unfolding f by (simp split: if_splits)
  show "target_qnet st1 = target_qnet st" if "lstep_counter st1 mod UPDATE_TARGET cfg \<noteq> 0"
    using that unfolding f by (simp split: if_splits)
next
  assume ts: "train_step cfg c st s er = Inr (st2, s2, er2, dn)"
  from ts obtain due where
    l: "lstep_counter st2 = (if due then lstep_counter st + 1 else lstep_counter st)"
    and t: "target_qnet st2 = (if due \<and> (lstep_counter st + 1) mod UPDATE_TARGET cfg = 0
                        then online_qnet st else target_qnet st)"
    by (rule train_step_view)
  show "lstep_counter st2 = lstep_counter st \<or> lstep_counter st2 = lstep_counter st + 1"
    unfolding l by simp
  show "target_qnet st2 =
          (if lstep_counter st2 = lstep_counter st + 1
              \<and> lstep_counter st2 mod UPDATE_TARGET cfg = 0
           then online_qnet st else target_qnet st)"
    unfolding l t by simp
next
  assume fl: "for_loop cfg c n st s er = Inr (st3, s3, er3)"
    and no: "\<forall>j. lstep_counter st < j \<and> j \<le> lstep_counter st3 \<longrightarrow> j mod UPDATE_TARGET cfg \<noteq> 0"
  have "target_rel cfg st st3"
  proof (rule for_loop_rel[where R = "target_rel cfg" and cfg = cfg and c = c, OF _ _ _ fl])
    show "\<And>x. target_rel cfg x x" by (rule target_rel_refl)
    show "\<And>x y z. target_rel cfg x y \<Longrightarrow> target_rel cfg y z \<Longrightarrow> target_rel cfg x z"
      by (rule target_rel_trans)
    show "\<And>x s er y s' er' dn. train_step cfg c x s er = Inr (y, s', er', dn)
            \<Longrightarrow> target_rel cfg x y" by (rule target_rel_step)
  qed
  then show "target_qnet st3 = target_qnet st" using no unfolding target_rel_def by blast
next
  assume ep: "episode cfg c env_seed st = Inr st4"
    and no: "\<forall>j. lstep_counter st < j \<and> j \<le> lstep_counter st4 \<longrightarrow> j mod UPDATE_TARGET cfg \<noteq> 0"
  have "target_rel cfg st st4"
  proof (rule episode_rel[where R = "target_rel cfg" and cfg = cfg and c = c, OF _ _ _ _ ep])
    show "\<And>x. target_rel cfg x x" by (rule target_rel_refl)
    show "\<And>x y z. target_rel cfg x y \<Longrightarrow> target_rel cfg y z \<Longrightarrow> target_rel cfg x z"
      by (rule target_rel_trans)
    show "\<And>x s er y s' er' dn. train_step cfg c x s er = Inr (y, s', er', dn)
            \<Longrightarrow> target_rel cfg x y" by (rule target_rel_step)
    show "\<And>x ec e r lrate ar ae az. target_rel cfg x
            (x\<lparr>epoch_counter := ec, env := e, rng := r, lr := lrate, accum_rew := ar,
               accum_eval_rew := ae, accum_steps := az\<rparr>)" by (rule target_rel_frame)
  qed
  then show "target_qnet st4 = target_qnet st" using no unfolding target_rel_def by blast
qed

theorem target_sync_witness:
  "update_target demo_cfg demo_st1 = Inr (demo_st1\<lparr>lstep_counter := 2, target_qnet := 1\<rparr>)
   \<and> train_step demo_cfg demo_collab demo_st1 1 1 = Inr (demo_st2, 2, 2, False)
   \<and> target_qnet demo_st2 = online_qnet demo_st1
   \<and> for_loop demo_cfg demo_collab 1 demo_st0 0 0 = Inr (demo_st1, 1, 1)
   \<and> target_qnet demo_st1 = target_qnet demo_st0
   \<and> target_qnet (demo_st1\<lparr>epoch_counter := 2, lr := 1 / 3, accum_rew := [1],
                     accum_eval_rew := [1], accum_steps := [1]\<rparr>) = target_qnet demo_st0"
proof -
  have u: "update_target demo_cfg demo_st1
             = Inr (demo_st1\<lparr>lstep_counter := 2, target_qnet := 1\<rparr>)"
    by (simp add: update_target_def demo_cfg_def demo_st1_def)
  have no1: "\<forall>j. lstep_counter demo_st0 < j \<and> j \<le> lstep_counter demo_st1
               \<longrightarrow> j mod UPDATE_TARGET demo_cfg \<noteq> 0"
    by (auto simp: demo_st0_def demo_st1_def demo_cfg_def)
  have no2: "\<forall>j. lstep_counter demo_st0 < j
               \<and> j \<le> lstep_counter (demo_st1\<lparr>epoch_counter := 2, lr := 1 / 3, accum_rew := [1],
                     accum_eval_rew := [1], accum_steps := [1]\<rparr>)
               \<longrightarrow> j mod UPDATE_TARGET (demo_cfg\<lparr>N_STEPS := 1\<rparr>) \<noteq> 0"
    by (auto simp: demo_st0_def demo_st1_def demo_cfg_def)
  have a: "target_qnet demo_st2 = online_qnet demo_st1"
    using target_sync[where cfg = demo_cfg and c = demo_collab and st = demo_st1 and s = 1
        and er = 1 and ?st2.0 = demo_st2 and ?s2.0 = 2 and ?er2.0 = 2 and dn = False]
      demo_step2 by (simp add: demo_st1_def demo_st2_def demo_cfg_def)
  have b: "target_qnet demo_st1 = target_qnet demo_st0"
    using target_sync[where cfg = demo_cfg and c = demo_collab and st = demo_st0 and s = 0
        and er = 0 and n = 1 and ?st3.0 = demo_st1 and ?s3.0 = 1 and ?er3.0 = 1]
      demo_loop1 no1 by blast
  have c: "target_qnet (demo_st1\<lparr>epoch_counter := 2, lr := 1 / 3, accum_rew := [1],
                     accum_eval_rew := [1], accum_steps := [1]\<rparr>) = target_qnet demo_st0"
    using target_sync[where cfg = "demo_cfg\<lparr>N_STEPS := 1\<rparr>" and c = demo_collab
        and st = demo_st0 and env_seed = 7
        and ?st4.0 = "demo_st1\<lparr>epoch_counter := 2, lr := 1 / 3, accum_rew := [1],
                     accum_eval_rew := [1], accum_steps := [1]\<rparr>"]
      demo_episode1 no2 by blast
  show ?thesis using u demo_step2 a demo_loop1 b c by blast
qed

subsection \<open>When a learning update happens\<close>

lemma train_step_no_learning:
  assumes a: "sample_discrete_action c (online_qnet st) s (epsilon st) (n_actions c) (rng st)
                = (a, rng1)"
    and e: "env_step c a (env st) = ((next_s, rew, dn, trunc), env1)"
    and small: "counter c (insert_exp c s next_s a rew dn (exp_replay st)) \<le> BATCH_SIZE cfg"
    and ex: "EXPLORE cfg \<noteq> 0"
    and tt: "PER cfg \<longrightarrow> TOTAL_TIMESTEPS cfg \<noteq> 0"
  shows "\<exists>st'. train_step cfg c st s er = Inr (st', next_s, er + rew, dn)
           \<and> lstep_counter st' = lstep_counter st \<and> online_qnet st' = online_qnet st
           \<and> target_qnet st' = target_qnet st
           \<and> exp_replay st' = insert_exp c s next_s a rew dn (exp_replay st)
           \<and> rng st' = rng1"
proof (cases "PER cfg")
  case True
  then show ?thesis
    using small ex tt
    by (simp add: train_step_def a e learn_due_def decay_epsilon_def anneal_beta_def Let_def)
next
  case False
  then show ?thesis
    using small ex
    by (simp add: train_step_def a e learn_due_def decay_epsilon_def anneal_beta_def Let_def)
qed

text \<open>
  C4. Consider an environment step in which the action \<open>a\<close> is sampled and the
  environment answers with \<open>next_s\<close>, \<open>rew\<close>, \<open>dn\<close>. When the step returns,
  it made a learning update (the learning-update count went up by one, and the online
  network, target network, buffer and random state are those the learning update of
  lines 126--158 returned) if and only if the buffer's \<^verbatim>\<open>counter\<close>, read after the
  insertion of the step's transition, is greater than \<open>BATCH_SIZE\<close> and the
  environment-step count, already incremented, is a multiple of \<open>UPDATE_STEPS\<close>;
  otherwise the count, both networks and the random state are untouched and the buffer
  only holds the new transition. While the counter is at most \<open>BATCH_SIZE\<close> the
  step returns without a learning update and without an error, whatever
  \<open>UPDATE_STEPS\<close> is (given that the schedules of lines 161--165 do not divide by
  zero).
\<close>

theorem learning_gate:
  assumes a: "sample_discrete_action c (online_qnet st) s (epsilon st) (n_actions c) (rng st)
                = (a, rng1)"
    and e: "env_step c a (env st) = ((next_s, rew, dn, trunc), env1)"
  shows
    "(train_step cfg c st s er = Inr (st', s', er', dn') \<longrightarrow>
        (lstep_counter st' = lstep_counter st + 1 \<longleftrightarrow>
           BATCH_SIZE cfg < counter c (insert_exp c s next_s a rew dn (exp_replay st))
           \<and> (step_counter st + 1) mod UPDATE_STEPS cfg = 0)
      \<and> (lstep_counter st' = lstep_counter st + 1 \<longrightarrow>
           (\<exists>st3. learn cfg c (st\<lparr>step_counter := step_counter st + 1, rng := rng1, env := env1,
                       exp_replay := insert_exp c s next_s a rew dn (exp_replay st)\<rparr>) = Inr st3
                  \<and> online_qnet st' = online_qnet st3 \<and> target_qnet st' = target_qnet st3
                  \<and> exp_replay st' = exp_replay st3 \<and> rng st' = rng st3))
      \<and> (lstep_counter st' \<noteq> lstep_counter st + 1 \<longrightarrow>
           lstep_counter st' = lstep_counter st \<and> online_qnet st' = online_qnet st
           \<and> target_qnet st' = target_qnet st
           \<and> exp_replay st' = insert_exp c s next_s a rew dn (exp_replay st)
           \<and> rng st' = rng1))
     \<and> (counter c (insert_exp c s next_s a rew dn (exp_replay st)) \<le> BATCH_SIZE cfg
          \<and> EXPLORE cfg \<noteq> 0 \<and> (PER cfg \<longrightarrow> TOTAL_TIMESTEPS cfg \<noteq> 0) \<longrightarrow>
        (\<exists>st'. train_step cfg c st s er = Inr (st', next_s, er + rew, dn)
           \<and> lstep_counter st' = lstep_counter st \<and> online_qnet st' = online_qnet st
           \<and> target_qnet st' = target_qnet st
           \<and> exp_replay st' = insert_exp c s next_s a rew dn (exp_replay st)
           \<and> rng st' = rng1))"
proof (rule conjI; rule impI)
  assume ts: "train_step cfg c st s er = Inr (st', s', er', dn')"
  from ts obtain a' rng1' rew' trunc' env1' due st2 st3 st4 where
    a': "sample_discrete_action c (online_qnet st) s (epsilon st) (n_actions c) (rng st)
           = (a', rng1')"
    and e': "env_step c a' (env st) = ((s', rew', dn', trunc'), env1')"
    and st2: "st2 = st\<lparr>step_counter := step_counter st + 1, rng := rng1', env := env1',
               exp_replay := insert_exp c s s' a' rew' dn' (exp_replay st)\<rparr>"
    and due: "learn_due cfg c st2 = Inr due"
    and l: "(if due then learn cfg c st2 else Inr st2) = Inr st3"
    and d: "decay_epsilon cfg st3 = Inr st4"
    and b: "anneal_beta cfg st4 = Inr st'"
    by (rule train_step_cases)
  have eqs: "a' = a" "rng1' = rng1" using a a' by simp_all
  have eqs2: "s' = next_s" "rew' = rew" "dn' = dn" "env1' = env1" using e e' eqs by simp_all
  note st2' = st2[unfolded eqs eqs2]
  let ?buf = "insert_exp c s next_s a rew dn (exp_replay st)"
  have due_iff: "due \<longleftrightarrow> BATCH_SIZE cfg < counter c ?buf
                          \<and> (step_counter st + 1) mod UPDATE_STEPS cfg = 0"
    using due unfolding learn_due_def st2' by (simp split: if_splits)
  have st': "st' = (if PER cfg then
                   (st3\<lparr>epsilon := max (FIN_EPS cfg)
                      (epsilon st3 - (INIT_EPS cfg - FIN_EPS cfg) / of_int (EXPLORE cfg))\<rparr>)
                   \<lparr>beta := beta st3 + of_int (step_counter st3) / of_int (TOTAL_TIMESTEPS cfg)
                                            * (1 - beta st3)\<rparr>
                 else st3\<lparr>epsilon := max (FIN_EPS cfg)
                      (epsilon st3 - (INIT_EPS cfg - FIN_EPS cfg) / of_int (EXPLORE cfg))\<rparr>)"
    unfolding anneal_beta_Inr(1)[OF b] decay_epsilon_Inr(2)[OF d] by simp
  have frame: "lstep_counter st' = lstep_counter st3" "online_qnet st' = online_qnet st3"
    "target_qnet st' = target_qnet st3" "exp_replay st' = exp_replay st3" "rng st' = rng st3"
    unfolding st' by simp_all
  have l3: "lstep_counter st3 = (if due then lstep_counter st + 1 else lstep_counter st)"
  proof (cases due)
    case True
    then have "learn cfg c st2 = Inr st3" using l by simp
    from learn_Inr(2)[OF this] show ?thesis using True unfolding st2' by auto
  next
    case False
    then show ?thesis using l unfolding st2' by auto
  qed
  have p1: "lstep_counter st' = lstep_counter st + 1 \<longleftrightarrow>
           BATCH_SIZE cfg < counter c ?buf \<and> (step_counter st + 1) mod UPDATE_STEPS cfg = 0"
    unfolding frame l3 due_iff[symmetric] by simp
  have p2: "\<exists>st3. learn cfg c (st\<lparr>step_counter := step_counter st + 1, rng := rng1, env := env1,
                       exp_replay := ?buf\<rparr>) = Inr st3
                  \<and> online_qnet st' = online_qnet st3 \<and> target_qnet st' = target_qnet st3
                  \<and> exp_replay st' = exp_replay st3 \<and> rng st' = rng st3"
    if "lstep_counter st' = lstep_counter st + 1"
  proof -
    from that have due using frame l3 by (cases due) simp_all
    then have "learn cfg c st2 = Inr st3" using l by simp
    then show ?thesis using frame unfolding st2' by blast
  qed
  have p3: "lstep_counter st' = lstep_counter st \<and> online_qnet st' = online_qnet st
           \<and> target_qnet st' = target_qnet st \<and> exp_replay st' = ?buf \<and> rng st' = rng1"
    if "lstep_counter st' \<noteq> lstep_counter st + 1"
  proof -
    from that have "\<not> due" using frame l3 by (cases due) simp_all
    then have "st3 = st2" using l by simp
    then show ?thesis using frame unfolding st2' by simp
  qed
  show "(lstep_counter st' = lstep_counter st + 1 \<longleftrightarrow>
           BATCH_SIZE cfg < counter c (insert_exp c s next_s a rew dn (exp_replay st))
           \<and> (step_counter st + 1) mod UPDATE_STEPS cfg = 0)
      \<and> (lstep_counter st' = lstep_counter st + 1 \<longrightarrow>
           (\<exists>st3. learn cfg c (st\<lparr>step_counter := step_counter st + 1, rng := rng1, env := env1,
                       exp_replay := insert_exp c s next_s a rew dn (exp_replay st)\<rparr>) = Inr st3
                  \<and> online_qnet st' = online_qnet st3 \<and> target_qnet st' = target_qnet st3
                  \<and> exp_replay st' = exp_replay st3 \<and> rng st' = rng st3))
      \<and> (lstep_counter st' \<noteq> lstep_counter st + 1 \<longrightarrow>
           lstep_counter st' = lstep_counter st \<and> online_qnet st' = online_qnet st
           \<and> target_qnet st' = target_qnet st
           \<and> exp_replay st' = insert_exp c s next_s a rew dn (exp_replay st)
           \<and> rng st' = rng1)"
    using p1 p2 p3 by blast
next
  assume h: "counter c (insert_exp c s next_s a rew dn (exp_replay st)) \<le> BATCH_SIZE cfg
          \<and> EXPLORE cfg \<noteq> 0 \<and> (PER cfg \<longrightarrow> TOTAL_TIMESTEPS cfg \<noteq> 0)"
  show "\<exists>st'. train_step cfg c st s er = Inr (st', next_s, er + rew, dn)
           \<and> lstep_counter st' = lstep_counter st \<and> online_qnet st' = online_qnet st
           \<and> target_qnet st' = target_qnet st
           \<and> exp_replay st' = insert_exp c s next_s a rew dn (exp_replay st)
           \<and> rng st' = rng1"
    using train_step_no_learning[OF a e] h by blast
qed

theorem learning_gate_witness:
  "sample_discrete_action demo_collab (online_qnet demo_st0) 0 (epsilon demo_st0)
      (n_actions demo_collab) (rng demo_st0) = (0, ())
   \<and> env_step demo_collab 0 (env demo_st0) = ((1, 1, False, True), 1)
   \<and> train_step demo_cfg demo_collab demo_st0 0 0 = Inr (demo_st1, 1, 1, False)
   \<and> (lstep_counter demo_st1 = lstep_counter demo_st0 + 1 \<longleftrightarrow>
           BATCH_SIZE demo_cfg
             < counter demo_collab (insert_exp demo_collab 0 1 0 1 False (exp_replay demo_st0))
           \<and> (step_counter demo_st0 + 1) mod UPDATE_STEPS demo_cfg = 0)
   \<and> lstep_counter demo_st1 = lstep_counter demo_st0 + 1
   \<and> (counter demo_collab (insert_exp demo_collab 0 1 0 1 False (exp_replay demo_st0))
          \<le> BATCH_SIZE (demo_cfg\<lparr>BATCH_SIZE := 1, UPDATE_STEPS := 0\<rparr>)
        \<and> EXPLORE (demo_cfg\<lparr>BATCH_SIZE := 1, UPDATE_STEPS := 0\<rparr>) \<noteq> 0
        \<and> PER (demo_cfg\<lparr>BATCH_SIZE := 1, UPDATE_STEPS := 0\<rparr>)
        \<and> TOTAL_TIMESTEPS (demo_cfg\<lparr>BATCH_SIZE := 1, UPDATE_STEPS := 0\<rparr>) \<noteq> 0)
   \<and> (\<exists>st'. train_step (demo_cfg\<lparr>BATCH_SIZE := 1, UPDATE_STEPS := 0\<rparr>) demo_collab demo_st0 0 0
               = Inr (st', 1, 0 + 1, False)
           \<and> lstep_counter st' = lstep_counter demo_st0 \<and> online_qnet st' = online_qnet demo_st0
           \<and> target_qnet st' = target_qnet demo_st0
           \<and> exp_replay st' = insert_exp demo_collab 0 1 0 1 False (exp_replay demo_st0)
           \<and> rng st' = ())"
proof -
  have a: "sample_discrete_action demo_collab (online_qnet demo_st0) 0 (epsilon demo_st0)
      (n_actions demo_collab) (rng demo_st0) = (0, ())"
    by (simp add: demo_collab_def)
  have e: "env_step demo_collab 0 (env demo_st0) = ((1, 1, False, True), 1)"
    by (simp add: demo_collab_def demo_st0_def)
  have h: "counter demo_collab (insert_exp demo_collab 0 1 0 1 False (exp_replay demo_st0))
          \<le> BATCH_SIZE (demo_cfg\<lparr>BATCH_SIZE := 1, UPDATE_STEPS := 0\<rparr>)
        \<and> EXPLORE (demo_cfg\<lparr>BATCH_SIZE := 1, UPDATE_STEPS := 0\<rparr>) \<noteq> 0
        \<and> (PER (demo_cfg\<lparr>BATCH_SIZE := 1, UPDATE_STEPS := 0\<rparr>) \<longrightarrow>
             TOTAL_TIMESTEPS (demo_cfg\<lparr>BATCH_SIZE := 1, UPDATE_STEPS := 0\<rparr>) \<noteq> 0)"
    by (simp add: demo_collab_def demo_st0_def demo_cfg_def)
  note g1 = learning_gate[OF a e, where cfg = demo_cfg and er = 0 and st' = demo_st1
      and s' = 1 and er' = 1 and dn' = False]
  note g2 = learning_gate[OF a e, where cfg = "demo_cfg\<lparr>BATCH_SIZE := 1, UPDATE_STEPS := 0\<rparr>"
      and er = 0]
  note 1 = conjunct1[OF conjunct1[OF g1, THEN mp, OF demo_step1]]
  have 2: "lstep_counter demo_st1 = lstep_counter demo_st0 + 1"
    by (simp add: demo_st0_def demo_st1_def)
  note 3 = conjunct2[OF g2, THEN mp, OF h]
  have p: "PER (demo_cfg\<lparr>BATCH_SIZE := 1, UPDATE_STEPS := 0\<rparr>)"
    and tt: "TOTAL_TIMESTEPS (demo_cfg\<lparr>BATCH_SIZE := 1, UPDATE_STEPS := 0\<rparr>) \<noteq> 0"
    by (simp_all add: demo_cfg_def)
  show ?thesis
    by (intro conjI a e demo_step1 1 2 h[THEN conjunct1] h[THEN conjunct2, THEN conjunct1]
          p tt 3)
qed

subsection \<open>The exploration rate\<close>

lemma eps_rel_refl: "eps_rel cfg x x"
  by (simp add: eps_rel_def)

lemma eps_rel_trans:
  assumes "eps_rel cfg x y" "eps_rel cfg y z"
  shows "eps_rel cfg x z"
proof -
  have le: "step_counter x \<le> step_counter y" "step_counter y \<le> step_counter z"
    using assms by (simp_all add: eps_rel_def)
  have n: "nat (step_counter z - step_counter x)
             = nat (step_counter z - step_counter y) + nat (step_counter y - step_counter x)"
    using le by simp
  have "epsilon z = (decay_once cfg ^^ nat (step_counter z - step_counter y)) (epsilon y)"
    using assms(2) by (simp add: eps_rel_def)
  also have "epsilon y = (decay_once cfg ^^ nat (step_counter y - step_counter x)) (epsilon x)"
    using assms(1) by (simp add: eps_rel_def)
  finally have "epsilon z = (decay_once cfg ^^ nat (step_counter z - step_counter x)) (epsilon x)"
    unfolding n by (simp add: funpow_add)
  then show ?thesis using le by (simp add: eps_rel_def)
qed

lemma eps_rel_step:
  assumes "train_step cfg c x s er = Inr (y, s', er', dn)"
  shows "eps_rel cfg x y"
proof -
  from assms obtain due :: bool where sc: "step_counter y = step_counter x + 1"
    and e: "epsilon y = max (FIN_EPS cfg)
                 (epsilon x - (INIT_EPS cfg - FIN_EPS cfg) / of_int (EXPLORE cfg))"
    by (rule train_step_view)
  show ?thesis unfolding eps_rel_def sc e by (simp add: decay_once_def)
qed

lemma eps_rel_frame:
  "eps_rel cfg x (x\<lparr>epoch_counter := ec, env := e, rng := r, lr := lrate, accum_rew := ar,
               accum_eval_rew := ae, accum_steps := az\<rparr>)"
  by (simp add: eps_rel_def)

lemma decay_closed_form:
  assumes "FIN_EPS cfg \<le> INIT_EPS cfg" "1 \<le> EXPLORE cfg"
  shows "(decay_once cfg ^^ n) (INIT_EPS cfg)
           = max (FIN_EPS cfg)
               (INIT_EPS cfg - of_nat n * ((INIT_EPS cfg - FIN_EPS cfg) / of_int (EXPLORE cfg)))"
proof (induction n)
  case 0
  then show ?case using assms by simp
next
  case (Suc n)
  define d where "d = (INIT_EPS cfg - FIN_EPS cfg) / of_int (EXPLORE cfg)"
  have d: "0 \<le> d" unfolding d_def using assms by simp
  have "(decay_once cfg ^^ Suc n) (INIT_EPS cfg)
          = decay_once cfg ((decay_once cfg ^^ n) (INIT_EPS cfg))" by simp
  also have "\<dots> = decay_once cfg (max (FIN_EPS cfg) (INIT_EPS cfg - of_nat n * d))"
    unfolding Suc.IH d_def ..
  also have "\<dots> = max (FIN_EPS cfg) (max (FIN_EPS cfg) (INIT_EPS cfg - of_nat n * d) - d)"
    by (simp add: decay_once_def d_def)
  also have "\<dots> = max (FIN_EPS cfg) (INIT_EPS cfg - of_nat (Suc n) * d)"
    using d by (simp add: max_def algebra_simps)
  finally show ?case unfolding d_def .
qed

lemma decay_schedule:
  assumes "FIN_EPS cfg \<le> INIT_EPS cfg" "1 \<le> EXPLORE cfg"
  shows "(decay_once cfg ^^ Suc k) (INIT_EPS cfg) \<le> (decay_once cfg ^^ k) (INIT_EPS cfg)"
    and "FIN_EPS cfg \<le> (decay_once cfg ^^ k) (INIT_EPS cfg)"
    and "EXPLORE cfg \<le> int k \<Longrightarrow> (decay_once cfg ^^ k) (INIT_EPS cfg) = FIN_EPS cfg"
proof -
  define d where "d = (INIT_EPS cfg - FIN_EPS cfg) / of_int (EXPLORE cfg)"
  have d: "0 \<le> d" unfolding d_def using assms by simp
  note cf = decay_closed_form[OF assms, folded d_def]
  show "(decay_once cfg ^^ Suc k) (INIT_EPS cfg) \<le> (decay_once cfg ^^ k) (INIT_EPS cfg)"
    unfolding cf using d by (simp add: max_def algebra_simps)
  show "FIN_EPS cfg \<le> (decay_once cfg ^^ k) (INIT_EPS cfg)"
    unfolding cf by simp
  show "(decay_once cfg ^^ k) (INIT_EPS cfg) = FIN_EPS cfg" if k: "EXPLORE cfg \<le> int k"
  proof -
    have pos: "0 < (of_int (EXPLORE cfg) :: real)" using assms by simp
    have "(of_int (EXPLORE cfg) :: real) \<le> of_nat k" using k
      by (metis of_int_le_iff of_int_of_nat_eq)
    then have "(INIT_EPS cfg - FIN_EPS cfg) * of_int (EXPLORE cfg)
                 \<le> (INIT_EPS cfg - FIN_EPS cfg) * of_nat k"
      using assms(1) by (intro mult_left_mono) simp_all
    then have "INIT_EPS cfg - FIN_EPS cfg \<le> of_nat k * d"
      unfolding d_def using pos by (simp add: pos_le_divide_eq mult.commute)
    then show ?thesis unfolding cf by simp
  qed
qed

text \<open>
  C5. Every environment step, with or without a learning update, increments the step
  count by one and replaces the exploration rate by
  \<open>max FIN_EPS (epsilon - (INIT_EPS - FIN_EPS) / EXPLORE)\<close> (line 161); nothing else in
  the episode loop or in the run assigns it, so after any number of loop iterations the
  rate is line 161 applied once for each step counted, and at the end of a run of
  \<^verbatim>\<open>main\<close> it is line 161 applied \<open>step_counter\<close> times to \<open>INIT_EPS\<close>. With
  \<open>FIN_EPS \<le> INIT_EPS\<close> and \<open>1 \<le> EXPLORE\<close>, over exact reals, the rate after \<open>k + 1\<close>
  steps is at most the rate after \<open>k\<close> steps, the rate is never below \<open>FIN_EPS\<close>, and it
  is exactly \<open>FIN_EPS\<close> after \<open>k \<ge> EXPLORE\<close> steps.
\<close>

theorem epsilon_schedule:
  "(train_step cfg c st s er = Inr (st1, s1, er1, dn) \<longrightarrow>
      step_counter st1 = step_counter st + 1
      \<and> epsilon st1 = max (FIN_EPS cfg)
                         (epsilon st - (INIT_EPS cfg - FIN_EPS cfg) / of_int (EXPLORE cfg)))
   \<and> (for_loop cfg c n st s er = Inr (st2, s2, er2) \<longrightarrow>
      step_counter st \<le> step_counter st2
      \<and> epsilon st2 = (decay_once cfg ^^ nat (step_counter st2 - step_counter st)) (epsilon st))
   \<and> (main cfg c = Some (Inr st3) \<longrightarrow>
      0 \<le> step_counter st3
      \<and> epsilon st3 = (decay_once cfg ^^ nat (step_counter st3)) (INIT_EPS cfg))
   \<and> (FIN_EPS cfg \<le> INIT_EPS cfg \<and> 1 \<le> EXPLORE cfg \<longrightarrow>
      (decay_once cfg ^^ Suc k) (INIT_EPS cfg) \<le> (decay_once cfg ^^ k) (INIT_EPS cfg)
      \<and> FIN_EPS cfg \<le> (decay_once cfg ^^ k) (INIT_EPS cfg)
      \<and> (EXPLORE cfg \<le> int k \<longrightarrow> (decay_once cfg ^^ k) (INIT_EPS cfg) = FIN_EPS cfg))"
proof -
  have p1: "step_counter st1 = step_counter st + 1
      \<and> epsilon st1 = max (FIN_EPS cfg)
                         (epsilon st - (INIT_EPS cfg - FIN_EPS cfg) / of_int (EXPLORE cfg))"
    if ts: "train_step cfg c st s er = Inr (st1, s1, er1, dn)"
  proof -
    from ts obtain due :: bool where "step_counter st1 = step_counter st + 1"
      and "epsilon st1 = max (FIN_EPS cfg)
                 (epsilon st - (INIT_EPS cfg - FIN_EPS cfg) / of_int (EXPLORE cfg))"
      by (rule train_step_view)
    then show ?thesis by simp
  qed
  have p2: "step_counter st \<le> step_counter st2
      \<and> epsilon st2 = (decay_once cfg ^^ nat (step_counter st2 - step_counter st)) (epsilon st)"
    if fl: "for_loop cfg c n st s er = Inr (st2, s2, er2)"
  proof -
    have "eps_rel cfg st st2"
    proof (rule for_loop_rel[where R = "eps_rel cfg" and cfg = cfg and c = c, OF _ _ _ fl])
      show "\<And>x. eps_rel cfg x x" by (rule eps_rel_refl)
      show "\<And>x y z. eps_rel cfg x y \<Longrightarrow> eps_rel cfg y z \<Longrightarrow> eps_rel cfg x z"
        by (rule eps_rel_trans)
      show "\<And>x s er y s' er' dn. train_step cfg c x s er = Inr (y, s', er', dn)
              \<Longrightarrow> eps_rel cfg x y" by (rule eps_rel_step)
    qed
    then show ?thesis by (simp add: eps_rel_def)
  qed
  have p3: "0 \<le> step_counter st3
      \<and> epsilon st3 = (decay_once cfg ^^ nat (step_counter st3)) (INIT_EPS cfg)"
    if m: "main cfg c = Some (Inr st3)"
  proof -
    from m have run: "main_loop cfg c (fst (draw_env_seed cfg c)) (init_state cfg c)
                        = Some (Inr st3)" by (simp add: main_def)
    have "eps_rel cfg (init_state cfg c) st3 \<and> TOTAL_TIMESTEPS cfg \<le> step_counter st3"
    proof (rule main_loop_rel[where R = "eps_rel cfg" and cfg = cfg and c = c,
          OF _ _ _ _ run])
      show "\<And>x. eps_rel cfg x x" by (rule eps_rel_refl)
      show "\<And>x y z. eps_rel cfg x y \<Longrightarrow> eps_rel cfg y z \<Longrightarrow> eps_rel cfg x z"
        by (rule eps_rel_trans)
      show "\<And>x s er y s' er' dn. train_step cfg c x s er = Inr (y, s', er', dn)
              \<Longrightarrow> eps_rel cfg x y" by (rule eps_rel_step)
      show "\<And>x ec e r lrate ar ae az. eps_rel cfg x
            (x\<lparr>epoch_counter := ec, env := e, rng := r, lr := lrate, accum_rew := ar,
               accum_eval_rew := ae, accum_steps := az\<rparr>)" by (rule eps_rel_frame)
    qed
    then show ?thesis by (simp add: eps_rel_def init_state_fields)
  qed
  have p4: "(decay_once cfg ^^ Suc k) (INIT_EPS cfg) \<le> (decay_once cfg ^^ k) (INIT_EPS cfg)
      \<and> FIN_EPS cfg \<le> (decay_once cfg ^^ k) (INIT_EPS cfg)
      \<and> (EXPLORE cfg \<le> int k \<longrightarrow> (decay_once cfg ^^ k) (INIT_EPS cfg) = FIN_EPS cfg)"
    if a: "FIN_EPS cfg \<le> INIT_EPS cfg \<and> 1 \<le> EXPLORE cfg"
  proof -
    from a have a1: "FIN_EPS cfg \<le> INIT_EPS cfg" and a2: "1 \<le> EXPLORE cfg" by simp_all
    show ?thesis using decay_schedule[OF a1 a2, of k] by blast
  qed
  show ?thesis using p1 p2 p3 p4 by blast
qed

theorem epsilon_schedule_witness:
  "train_step demo_cfg demo_collab demo_st0 0 0 = Inr (demo_st1, 1, 1, False)
   \<and> epsilon demo_st0 = 1 \<and> epsilon demo_st1 = 1 / 2
   \<and> for_loop demo_cfg demo_collab 2 demo_st0 0 0 = Inr (demo_st2, 2, 2)
   \<and> epsilon demo_st2 = (decay_once demo_cfg ^^ 2) 1
   \<and> main demo_cfg demo_collab =
       Some (Inr (demo_st2\<lparr>lr := 1 / 2, accum_rew := [2], accum_eval_rew := [2],
                    accum_steps := [2]\<rparr>))
   \<and> FIN_EPS demo_cfg \<le> INIT_EPS demo_cfg \<and> 1 \<le> EXPLORE demo_cfg
   \<and> EXPLORE demo_cfg \<le> int 2
   \<and> (decay_once demo_cfg ^^ 2) (INIT_EPS demo_cfg) = FIN_EPS demo_cfg
   \<and> (decay_once demo_cfg ^^ 2) (INIT_EPS demo_cfg) \<le> (decay_once demo_cfg ^^ 1) (INIT_EPS demo_cfg)
   \<and> epsilon demo_st2 = 0"
proof -
  have a: "epsilon demo_st1 = 1 / 2"
    using epsilon_schedule[where cfg = demo_cfg and c = demo_collab and st = demo_st0
        and s = 0 and er = 0 and ?st1.0 = demo_st1 and ?s1.0 = 1 and ?er1.0 = 1
        and dn = False] demo_step1
    by (simp add: demo_st0_def demo_cfg_def)
  have b: "epsilon demo_st2 = (decay_once demo_cfg ^^ 2) 1"
    using epsilon_schedule[where cfg = demo_cfg and c = demo_collab and st = demo_st0
        and s = 0 and er = 0 and n = 2 and ?st2.0 = demo_st2 and ?s2.0 = 2 and ?er2.0 = 2]
      demo_loop2
    by (simp add: demo_st0_def demo_st2_def)
  have h: "FIN_EPS demo_cfg \<le> INIT_EPS demo_cfg \<and> 1 \<le> EXPLORE demo_cfg"
    by (simp add: demo_cfg_def)
  have k: "EXPLORE demo_cfg \<le> int 2" by (simp add: demo_cfg_def)
  have c: "(decay_once demo_cfg ^^ 2) (INIT_EPS demo_cfg) = FIN_EPS demo_cfg"
    by (rule epsilon_schedule[where cfg = demo_cfg and k = 2, THEN conjunct2, THEN conjunct2,
          THEN conjunct2, THEN mp, OF h, THEN conjunct2, THEN conjunct2, THEN mp, OF k])
  have d: "(decay_once demo_cfg ^^ 2) (INIT_EPS demo_cfg)
             \<le> (decay_once demo_cfg ^^ 1) (INIT_EPS demo_cfg)"
    using epsilon_schedule[where cfg = demo_cfg and k = 1, THEN conjunct2, THEN conjunct2,
          THEN conjunct2, THEN mp, OF h, THEN conjunct1]
    by (simp add: numeral_2_eq_2)
  have e: "epsilon demo_st2 = 0"
    using epsilon_schedule[where cfg = demo_cfg and c = demo_collab
        and ?st3.0 = "demo_st2\<lparr>lr := 1 / 2, accum_rew := [2], accum_eval_rew := [2],
                    accum_steps := [2]\<rparr>"] demo_main c
    by (simp add: demo_st2_def demo_cfg_def)
  have e0: "epsilon demo_st0 = 1" by (simp add: demo_st0_def)
  show ?thesis using demo_step1 e0 a demo_loop2 b demo_main h k c d e by blast
qed

subsection \<open>The bias-correction exponent\<close>

lemma beta_rel_refl: "beta_rel cfg x x"
  by (simp add: beta_rel_def)

lemma beta_rel_trans:
  assumes "beta_rel cfg x y" "beta_rel cfg y z"
  shows "beta_rel cfg x z"
  using assms unfolding beta_rel_def by force

lemma beta_rel_frame:
  "beta_rel cfg x (x\<lparr>epoch_counter := ec, env := e, rng := r, lr := lrate, accum_rew := ar,
               accum_eval_rew := ae, accum_steps := az\<rparr>)"
  by (simp add: beta_rel_def beta_inv_def)

lemma anneal_step:
  fixes b :: real and k T :: int
  assumes T: "0 < T" and k: "0 \<le> k" and b: "0 \<le> b" "b \<le> 1" and top: "T \<le> k \<longrightarrow> b = 1"
  defines "b' \<equiv> b + of_int (k + 1) / of_int T * (1 - b)"
  shows "b \<le> b'" "b' \<le> 1" "T \<le> k + 1 \<longrightarrow> b' = 1"
proof -
  have g: "1 - b' = (1 - of_int (k + 1) / of_int T) * (1 - b)"
    unfolding b'_def by (simp add: algebra_simps)
  have f0: "0 \<le> (of_int (k + 1) / of_int T :: real)" using T k by simp
  have "0 \<le> of_int (k + 1) / of_int T * (1 - b)"
    using f0 b by (intro mult_nonneg_nonneg) simp_all
  then show "b \<le> b'" unfolding b'_def by linarith
  show "b' \<le> 1"
  proof (cases "T \<le> k")
    case True
    then show ?thesis using top unfolding b'_def by simp
  next
    case False
    then have "k + 1 \<le> T" by simp
    then have "(of_int (k + 1) :: real) \<le> of_int T" by (simp only: of_int_le_iff)
    then have "(of_int (k + 1) / of_int T :: real) \<le> 1" using T by (simp add: divide_le_eq)
    then have "0 \<le> 1 - b'" unfolding g using b by simp
    then show ?thesis by simp
  qed
  show "T \<le> k + 1 \<longrightarrow> b' = 1"
  proof
    assume h: "T \<le> k + 1"
    show "b' = 1"
    proof (cases "T \<le> k")
      case True
      then show ?thesis using top unfolding b'_def by simp
    next
      case False
      then have "k + 1 = T" using h by simp
      then have "(of_int (k + 1) / of_int T :: real) = 1" using T by simp
      then have "1 - b' = 0" unfolding g by simp
      then show ?thesis by simp
    qed
  qed
qed

lemma beta_rel_step:
  assumes "train_step cfg c x s er = Inr (y, s', er', dn)"
  shows "beta_rel cfg x y"
proof -
  from assms obtain due :: bool where sc: "step_counter y = step_counter x + 1"
    and b: "beta y = (if PER cfg
          then beta x + of_int (step_counter x + 1) / of_int (TOTAL_TIMESTEPS cfg) * (1 - beta x)
          else beta x)"
    by (rule train_step_view)
  show ?thesis
  proof (cases "PER cfg")
    case False
    then show ?thesis unfolding beta_rel_def beta_inv_def sc b by simp
  next
    case True
    show ?thesis unfolding beta_rel_def
    proof (intro impI)
      assume h: "0 < TOTAL_TIMESTEPS cfg \<and> beta_inv cfg x"
      then have T: "0 < TOTAL_TIMESTEPS cfg" and k: "0 \<le> step_counter x"
        and b0: "0 \<le> beta x" "beta x \<le> 1"
        and top: "TOTAL_TIMESTEPS cfg \<le> step_counter x \<longrightarrow> beta x = 1"
        using True by (simp_all add: beta_inv_def)
      note a = anneal_step[OF T k b0 top]
      have by': "beta y = beta x + of_int (step_counter x + 1) / of_int (TOTAL_TIMESTEPS cfg)
                    * (1 - beta x)" using b True by simp
      have "0 \<le> beta y" using a(1) b0(1) unfolding by' by linarith
      then show "beta_inv cfg y \<and> beta x \<le> beta y"
        using a k unfolding beta_inv_def sc by' by simp
    qed
  qed
qed


text \<open>
  C6. Every environment step leaves the bias-correction exponent alone when \<open>PER\<close> is
  off and otherwise replaces it by \<open>beta + step_counter / TOTAL_TIMESTEPS * (1 - beta)\<close>,
  with the step count just incremented (lines 163--165); so the distance to 1 is
  multiplied by \<open>1 - step_counter / TOTAL_TIMESTEPS\<close>. With \<open>0 < TOTAL_TIMESTEPS\<close>,
  a step count that is not negative and an exponent in \<open>[0, 1]\<close> (equal to 1 if the
  step count has already reached \<open>TOTAL_TIMESTEPS\<close>), one step and any number of loop
  iterations keep all this, do not decrease the exponent, and leave it exactly 1 once the
  step count has reached \<open>TOTAL_TIMESTEPS\<close>. A run of \<^verbatim>\<open>main\<close> in prioritized mode
  that starts from \<open>PER_BETA\<close> in \<open>[0, 1]\<close> and returns ends with the exponent in
  \<open>[PER_BETA, 1]\<close>, and at exactly 1 when any step was to be made.
\<close>

theorem beta_anneal:
  "(train_step cfg c st s er = Inr (st1, s1, er1, dn) \<longrightarrow>
      step_counter st1 = step_counter st + 1
      \<and> beta st1 = (if PER cfg
                    then beta st + of_int (step_counter st1) / of_int (TOTAL_TIMESTEPS cfg)
                                     * (1 - beta st)
                    else beta st)
      \<and> (PER cfg \<longrightarrow> 1 - beta st1 =
            (1 - of_int (step_counter st1) / of_int (TOTAL_TIMESTEPS cfg)) * (1 - beta st)))
   \<and> (train_step cfg c st s er = Inr (st1, s1, er1, dn) \<and> PER cfg
        \<and> 0 < TOTAL_TIMESTEPS cfg \<and> beta_inv cfg st \<longrightarrow>
      beta st \<le> beta st1 \<and> beta st1 \<le> 1
      \<and> (TOTAL_TIMESTEPS cfg \<le> step_counter st1 \<longrightarrow> beta st1 = 1))
   \<and> (for_loop cfg c n st s er = Inr (st2, s2, er2) \<and> PER cfg
        \<and> 0 < TOTAL_TIMESTEPS cfg \<and> beta_inv cfg st \<longrightarrow>
      beta st \<le> beta st2 \<and> beta st2 \<le> 1
      \<and> (TOTAL_TIMESTEPS cfg \<le> step_counter st2 \<longrightarrow> beta st2 = 1))
   \<and> (main cfg c = Some (Inr st3) \<and> PER cfg \<and> 0 \<le> PER_BETA cfg \<and> PER_BETA cfg \<le> 1 \<longrightarrow>
      PER_BETA cfg \<le> beta st3 \<and> beta st3 \<le> 1
      \<and> (0 < TOTAL_TIMESTEPS cfg \<longrightarrow> beta st3 = 1))"
proof -
  have p1: "step_counter st1 = step_counter st + 1
      \<and> beta st1 = (if PER cfg
                    then beta st + of_int (step_counter st1) / of_int (TOTAL_TIMESTEPS cfg)
                                     * (1 - beta st)
                    else beta st)
      \<and> (PER cfg \<longrightarrow> 1 - beta st1 =
            (1 - of_int (step_counter st1) / of_int (TOTAL_TIMESTEPS cfg)) * (1 - beta st))"
    if ts: "train_step cfg c st s er = Inr (st1, s1, er1, dn)"
  proof -
    from ts obtain due :: bool where sc: "step_counter st1 = step_counter st + 1"
      and b: "beta st1 = (if PER cfg
          then beta st + of_int (step_counter st + 1) / of_int (TOTAL_TIMESTEPS cfg)
                           * (1 - beta st)
          else beta st)"
      by (rule train_step_view)
    show ?thesis unfolding sc b by (simp add: algebra_simps)
  qed
  have p2: "beta st \<le> beta st1 \<and> beta st1 \<le> 1
      \<and> (TOTAL_TIMESTEPS cfg \<le> step_counter st1 \<longrightarrow> beta st1 = 1)"
    if h: "train_step cfg c st s er = Inr (st1, s1, er1, dn) \<and> PER cfg
        \<and> 0 < TOTAL_TIMESTEPS cfg \<and> beta_inv cfg st"
  proof -
    from h have ts: "train_step cfg c st s er = Inr (st1, s1, er1, dn)" by simp
    have "beta_rel cfg st st1" by (rule beta_rel_step[OF ts])
    then show ?thesis using h by (simp add: beta_rel_def beta_inv_def)
  qed
  have p3: "beta st \<le> beta st2 \<and> beta st2 \<le> 1
      \<and> (TOTAL_TIMESTEPS cfg \<le> step_counter st2 \<longrightarrow> beta st2 = 1)"
    if h: "for_loop cfg c n st s er = Inr (st2, s2, er2) \<and> PER cfg
        \<and> 0 < TOTAL_TIMESTEPS cfg \<and> beta_inv cfg st"
  proof -
    from h have fl: "for_loop cfg c n st s er = Inr (st2, s2, er2)" by simp
    have "beta_rel cfg st st2"
    proof (rule for_loop_rel[where R = "beta_rel cfg" and cfg = cfg and c = c, OF _ _ _ fl])
      show "\<And>x. beta_rel cfg x x" by (rule beta_rel_refl)
      show "\<And>x y z. beta_rel cfg x y \<Longrightarrow> beta_rel cfg y z \<Longrightarrow> beta_rel cfg x z"
        by (rule beta_rel_trans)
      show "\<And>x s er y s' er' dn. train_step cfg c x s er = Inr (y, s', er', dn)
              \<Longrightarrow> beta_rel cfg x y" by (rule beta_rel_step)
    qed
    then show ?thesis using h by (simp add: beta_rel_def beta_inv_def)
  qed
  have p4: "PER_BETA cfg \<le> beta st3 \<and> beta st3 \<le> 1
      \<and> (0 < TOTAL_TIMESTEPS cfg \<longrightarrow> beta st3 = 1)"
    if h: "main cfg c = Some (Inr st3) \<and> PER cfg \<and> 0 \<le> PER_BETA cfg \<and> PER_BETA cfg \<le> 1"
  proof (cases "0 < TOTAL_TIMESTEPS cfg")
    case False
    then have "\<not> step_counter (init_state cfg c) < TOTAL_TIMESTEPS cfg"
      by (simp add: init_state_fields)
    then have "main cfg c = Some (Inr (init_state cfg c))"
      unfolding main_def main_loop_def by (subst while_loop.simps) simp
    then have "st3 = init_state cfg c" using h by simp
    then show ?thesis using h False by (simp add: init_state_fields)
  next
    case True
    from h have run: "main_loop cfg c (fst (draw_env_seed cfg c)) (init_state cfg c)
                        = Some (Inr st3)" by (simp add: main_def)
    have r: "beta_rel cfg (init_state cfg c) st3 \<and> TOTAL_TIMESTEPS cfg \<le> step_counter st3"
    proof (rule main_loop_rel[where R = "beta_rel cfg" and cfg = cfg and c = c,
          OF _ _ _ _ run])
      show "\<And>x. beta_rel cfg x x" by (rule beta_rel_refl)
      show "\<And>x y z. beta_rel cfg x y \<Longrightarrow> beta_rel cfg y z \<Longrightarrow> beta_rel cfg x z"
        by (rule beta_rel_trans)
      show "\<And>x s er y s' er' dn. train_step cfg c x s er = Inr (y, s', er', dn)
              \<Longrightarrow> beta_rel cfg x y" by (rule beta_rel_step)
      show "\<And>x ec e r lrate ar ae az. beta_rel cfg x
            (x\<lparr>epoch_counter := ec, env := e, rng := r, lr := lrate, accum_rew := ar,
               accum_eval_rew := ae, accum_steps := az\<rparr>)" by (rule beta_rel_frame)
    qed
    have i: "beta_inv cfg (init_state cfg c)"
      using h True by (simp add: beta_inv_def init_state_fields)
    from r i True have "beta_inv cfg st3" and "beta (init_state cfg c) \<le> beta st3"
      and "TOTAL_TIMESTEPS cfg \<le> step_counter st3"
      by (simp_all add: beta_rel_def)
    then show ?thesis using h by (simp add: beta_inv_def init_state_fields)
  qed
  show ?thesis using p1 p2 p3 p4 by blast
qed

theorem beta_anneal_witness:
  "train_step demo_cfg demo_collab demo_st0 0 0 = Inr (demo_st1, 1, 1, False)
   \<and> PER demo_cfg \<and> 0 < TOTAL_TIMESTEPS demo_cfg \<and> beta_inv demo_cfg demo_st0
   \<and> beta demo_st0 = 0 \<and> beta demo_st1 = 1
   \<and> for_loop demo_cfg demo_collab 2 demo_st0 0 0 = Inr (demo_st2, 2, 2)
   \<and> beta demo_st2 = 1
   \<and> main demo_cfg demo_collab =
       Some (Inr (demo_st2\<lparr>lr := 1 / 2, accum_rew := [2], accum_eval_rew := [2],
                    accum_steps := [2]\<rparr>))
   \<and> 0 \<le> PER_BETA demo_cfg \<and> PER_BETA demo_cfg \<le> 1
   \<and> beta (demo_st2\<lparr>lr := 1 / 2, accum_rew := [2], accum_eval_rew := [2],
                    accum_steps := [2]\<rparr>) = 1"
proof -
  have per: "PER demo_cfg" and T: "0 < TOTAL_TIMESTEPS demo_cfg"
    and pb: "0 \<le> PER_BETA demo_cfg" "PER_BETA demo_cfg \<le> 1"
    by (simp_all add: demo_cfg_def)
  have i: "beta_inv demo_cfg demo_st0"
    by (simp add: beta_inv_def demo_cfg_def demo_st0_def)
  have b0: "beta demo_st0 = 0" by (simp add: demo_st0_def)
  have t1: "TOTAL_TIMESTEPS demo_cfg \<le> step_counter demo_st1"
    by (simp add: demo_cfg_def demo_st1_def)
  have t2: "TOTAL_TIMESTEPS demo_cfg \<le> step_counter demo_st2"
    by (simp add: demo_cfg_def demo_st2_def)
  have a: "beta demo_st1 = 1"
    by (rule beta_anneal[where cfg = demo_cfg and c = demo_collab and st = demo_st0
        and s = 0 and er = 0 and ?st1.0 = demo_st1 and ?s1.0 = 1 and ?er1.0 = 1
        and dn = False, THEN conjunct2, THEN conjunct1, THEN mp,
        OF conjI[OF demo_step1 conjI[OF per conjI[OF T i]]],
        THEN conjunct2, THEN conjunct2, THEN mp, OF t1])
  have b: "beta demo_st2 = 1"
    by (rule beta_anneal[where cfg = demo_cfg and c = demo_collab and st = demo_st0
        and s = 0 and er = 0 and n = 2 and ?st2.0 = demo_st2 and ?s2.0 = 2 and ?er2.0 = 2,
        THEN conjunct2, THEN conjunct2, THEN conjunct1, THEN mp,
        OF conjI[OF demo_loop2 conjI[OF per conjI[OF T i]]],
        THEN conjunct2, THEN conjunct2, THEN mp, OF t2])
  have c: "beta (demo_st2\<lparr>lr := 1 / 2, accum_rew := [2], accum_eval_rew := [2],
                    accum_steps := [2]\<rparr>) = 1"
    by (rule beta_anneal[where cfg = demo_cfg and c = demo_collab
        and ?st3.0 = "demo_st2\<lparr>lr := 1 / 2, accum_rew := [2], accum_eval_rew := [2],
                    accum_steps := [2]\<rparr>",
        THEN conjunct2, THEN conjunct2, THEN conjunct2, THEN mp,
        OF conjI[OF demo_main conjI[OF per conjI[OF pb]]],
        THEN conjunct2, THEN conjunct2, THEN mp, OF T])
  show ?thesis using demo_step1 per T i b0 a demo_loop2 b demo_main pb c by blast
qed

subsection \<open>The step budget\<close>

lemma main_loop_terminates:
  assumes "1 \<le> N_STEPS cfg"
  shows "\<exists>r. main_loop cfg c env_seed st = Some r"
  unfolding main_loop_def
proof (rule while_loop_terminates[where m = "\<lambda>x. nat (TOTAL_TIMESTEPS cfg - step_counter x)"])
  fix x y
  assume b: "step_counter x < TOTAL_TIMESTEPS cfg" and e: "episode cfg c env_seed x = Inr y"
  from episode_steps(2)[OF e assms] b
  show "nat (TOTAL_TIMESTEPS cfg - step_counter y) < nat (TOTAL_TIMESTEPS cfg - step_counter x)"
    by simp
qed

lemma main_loop_steps:
  fixes st :: "('b, 'c, 'd, 'e) state"
  assumes run: "main_loop cfg c env_seed st = Some (Inr st')"
  shows "TOTAL_TIMESTEPS cfg \<le> step_counter st'"
    and "step_counter st \<le> step_counter st'"
    and "step_counter st' \<le> max (step_counter st) (TOTAL_TIMESTEPS cfg + N_STEPS cfg - 1)"
proof -
  define I where "I = (\<lambda>x :: ('b, 'c, 'd, 'e) state. step_counter st \<le> step_counter x
       \<and> step_counter x \<le> max (step_counter st)
                              (TOTAL_TIMESTEPS cfg + int (nat (N_STEPS cfg)) - 1))"
  have "\<forall>y. (Inr st' :: py_error + ('b, 'c, 'd, 'e) state) = Inr y
          \<longrightarrow> I y \<and> \<not> step_counter y < TOTAL_TIMESTEPS cfg"
  proof (rule while_loop_inv[where I = I and body = "episode cfg c env_seed"
        and b = "\<lambda>x. step_counter x < TOTAL_TIMESTEPS cfg" and st = st])
    show "I st" by (simp add: I_def)
    show "\<And>x y. I x \<Longrightarrow> step_counter x < TOTAL_TIMESTEPS cfg
            \<Longrightarrow> episode cfg c env_seed x = Inr y \<Longrightarrow> I y"
    proof -
      fix x y
      assume i: "I x" and b: "step_counter x < TOTAL_TIMESTEPS cfg"
        and e: "episode cfg c env_seed x = Inr y"
      from episode_steps(1)[OF e] episode_steps(3)[OF e] i b
      show "I y" unfolding I_def by simp
    qed
    show "while_loop (\<lambda>x. step_counter x < TOTAL_TIMESTEPS cfg) (episode cfg c env_seed) st
            = Some (Inr st')" using run by (simp add: main_loop_def)
  qed
  then have i: "I st'" and nb: "TOTAL_TIMESTEPS cfg \<le> step_counter st'" by simp_all
  show "TOTAL_TIMESTEPS cfg \<le> step_counter st'" by (rule nb)
  show "step_counter st \<le> step_counter st'" using i by (simp add: I_def)
  show "step_counter st' \<le> max (step_counter st) (TOTAL_TIMESTEPS cfg + N_STEPS cfg - 1)"
  proof (cases "0 \<le> N_STEPS cfg")
    case True
    then show ?thesis using i by (simp add: I_def)
  next
    case False
    then have "step_counter st' \<le> max (step_counter st) (TOTAL_TIMESTEPS cfg - 1)"
      using i by (simp add: I_def)
    then have "step_counter st' \<le> step_counter st" using nb by simp
    then show ?thesis by simp
  qed
qed

lemma demo_episode_idle:
  assumes "0 \<le> epoch_counter x"
  shows "\<exists>y. episode (demo_cfg\<lparr>N_STEPS := 0\<rparr>) demo_collab 7 x = Inr y
             \<and> step_counter y = step_counter x \<and> 0 \<le> epoch_counter y"
proof -
  have "1 + real_of_int (epoch_counter x + 1) \<noteq> 0" using assms by linarith
  then show ?thesis using assms
    by (simp add: episode_def decay_lr_def evaluate_def eval_model_def demo_cfg_def
        demo_collab_def Let_def)
qed

lemma demo_main_idle: "main (demo_cfg\<lparr>N_STEPS := 0\<rparr>) demo_collab = None"
proof -
  have s: "fst (draw_env_seed (demo_cfg\<lparr>N_STEPS := 0\<rparr>) demo_collab) = 7"
    by (simp add: draw_env_seed_def demo_collab_def)
  have i: "init_state (demo_cfg\<lparr>N_STEPS := 0\<rparr>) demo_collab = demo_st0\<lparr>epoch_counter := 0\<rparr>"
    by (simp add: init_state_def demo_cfg_def demo_collab_def demo_st0_def draw_env_seed_def)
  show ?thesis
    unfolding main_def main_loop_def s i
  proof (rule while_loop_diverges[where
        I = "\<lambda>x. step_counter x = 0 \<and> 0 \<le> epoch_counter x"])
    show "step_counter (demo_st0\<lparr>epoch_counter := 0\<rparr>) = 0
            \<and> 0 \<le> epoch_counter (demo_st0\<lparr>epoch_counter := 0\<rparr>)"
      by (simp add: demo_st0_def)
    fix x :: "(nat, nat, nat, unit) state"
    assume a: "step_counter x = 0 \<and> 0 \<le> epoch_counter x"
    then have e: "0 \<le> epoch_counter x" by simp
    from demo_episode_idle[OF e] a
    show "step_counter x < TOTAL_TIMESTEPS (demo_cfg\<lparr>N_STEPS := 0\<rparr>)
            \<and> (\<exists>y. episode (demo_cfg\<lparr>N_STEPS := 0\<rparr>) demo_collab 7 x = Inr y
                    \<and> step_counter y = 0 \<and> 0 \<le> epoch_counter y)"
      by (auto simp: demo_cfg_def)
  qed
qed


text \<open>
  C7. The budget is tested only by the \<^verbatim>\<open>while\<close> of line 109, before an episode
  starts, and never inside the \<^verbatim>\<open>for\<close> loop of line 115. In the concrete run, with
  \<open>TOTAL_TIMESTEPS = 1\<close> and \<open>N_STEPS = 2\<close> and an environment that never reports
  \<open>done\<close>, \<^verbatim>\<open>main\<close> returns after 2 environment steps; and with \<open>N_STEPS = 0\<close> the
  episode makes no step and \<^verbatim>\<open>main\<close> never returns.
\<close>

theorem budget_overshoot:
  "main demo_cfg demo_collab =
     Some (Inr (demo_st2\<lparr>lr := 1 / 2, accum_rew := [2], accum_eval_rew := [2],
                  accum_steps := [2]\<rparr>))
   \<and> step_counter (demo_st2\<lparr>lr := 1 / 2, accum_rew := [2], accum_eval_rew := [2],
                  accum_steps := [2]\<rparr>) = 2
   \<and> TOTAL_TIMESTEPS demo_cfg = 1
   \<and> N_STEPS demo_cfg = 2
   \<and> main (demo_cfg\<lparr>N_STEPS := 0\<rparr>) demo_collab = None"
proof -
  have a: "step_counter (demo_st2\<lparr>lr := 1 / 2, accum_rew := [2], accum_eval_rew := [2],
                  accum_steps := [2]\<rparr>) = 2" by (simp add: demo_st2_def)
  have b: "TOTAL_TIMESTEPS demo_cfg = 1" "N_STEPS demo_cfg = 2" by (simp_all add: demo_cfg_def)
  show ?thesis by (intro conjI demo_main a b demo_main_idle)
qed

text \<open>
  C7, as the code has it. With \<open>N_STEPS \<ge> 1\<close> the training loop, started in any state,
  ends (with the variables or with an exception), and so does \<^verbatim>\<open>main\<close>; the
  collaborators are total functions here. When the loop returns, the step count has
  reached \<open>TOTAL_TIMESTEPS\<close>, has not decreased, and is at most
  \<open>TOTAL_TIMESTEPS + N_STEPS - 1\<close> unless it was larger at the start; a run of
  \<^verbatim>\<open>main\<close> that returns has made at least \<open>TOTAL_TIMESTEPS\<close> and at most
  \<open>max 0 (TOTAL_TIMESTEPS + N_STEPS - 1)\<close> environment steps, and none when
  \<open>TOTAL_TIMESTEPS \<le> 0\<close>. The \<^verbatim>\<open>for\<close> loop of
  one episode makes at most as many steps as it has iterations.
\<close>

theorem run_budget:
  "(1 \<le> N_STEPS cfg \<longrightarrow>
      (\<exists>r. main_loop cfg c env_seed st = Some r) \<and> (\<exists>r. main cfg c = Some r))
   \<and> (main_loop cfg c env_seed st = Some (Inr st1) \<longrightarrow>
      TOTAL_TIMESTEPS cfg \<le> step_counter st1 \<and> step_counter st \<le> step_counter st1
      \<and> step_counter st1 \<le> max (step_counter st) (TOTAL_TIMESTEPS cfg + N_STEPS cfg - 1))
   \<and> (main cfg c = Some (Inr st3) \<longrightarrow>
      TOTAL_TIMESTEPS cfg \<le> step_counter st3 \<and> 0 \<le> step_counter st3
      \<and> step_counter st3 \<le> max 0 (TOTAL_TIMESTEPS cfg + N_STEPS cfg - 1)
      \<and> (TOTAL_TIMESTEPS cfg \<le> 0 \<longrightarrow> step_counter st3 = 0))
   \<and> (for_loop cfg c n st s er = Inr (st2, s2, er2) \<longrightarrow>
      step_counter st \<le> step_counter st2 \<and> step_counter st2 \<le> step_counter st + int n)"
proof -
  have p1: "(\<exists>r. main_loop cfg c env_seed st = Some r) \<and> (\<exists>r. main cfg c = Some r)"
    if n: "1 \<le> N_STEPS cfg"
    unfolding main_def using main_loop_terminates[OF n] by blast
  have p2: "TOTAL_TIMESTEPS cfg \<le> step_counter st1 \<and> step_counter st \<le> step_counter st1
      \<and> step_counter st1 \<le> max (step_counter st) (TOTAL_TIMESTEPS cfg + N_STEPS cfg - 1)"
    if run: "main_loop cfg c env_seed st = Some (Inr st1)"
    using main_loop_steps[OF run] by simp
  have p3: "TOTAL_TIMESTEPS cfg \<le> step_counter st3 \<and> 0 \<le> step_counter st3
      \<and> step_counter st3 \<le> max 0 (TOTAL_TIMESTEPS cfg + N_STEPS cfg - 1)
      \<and> (TOTAL_TIMESTEPS cfg \<le> 0 \<longrightarrow> step_counter st3 = 0)"
    if m: "main cfg c = Some (Inr st3)"
  proof -
    from m have run: "main_loop cfg c (fst (draw_env_seed cfg c)) (init_state cfg c)
                        = Some (Inr st3)" by (simp add: main_def)
    have z: "step_counter st3 = 0" if le: "TOTAL_TIMESTEPS cfg \<le> 0"
    proof -
      from le have "\<not> step_counter (init_state cfg c) < TOTAL_TIMESTEPS cfg"
        by (simp add: init_state_fields)
      then have "main cfg c = Some (Inr (init_state cfg c))"
        unfolding main_def main_loop_def by (subst while_loop.simps) simp
      then have "st3 = init_state cfg c" using m by simp
      then show ?thesis by (simp add: init_state_fields)
    qed
    from main_loop_steps[OF run] z show ?thesis by (simp add: init_state_fields)
  qed
  have p4: "step_counter st \<le> step_counter st2 \<and> step_counter st2 \<le> step_counter st + int n"
    if fl: "for_loop cfg c n st s er = Inr (st2, s2, er2)"
    using for_loop_steps[OF fl] by simp
  show ?thesis using p1 p2 p3 p4 by blast
qed

theorem run_budget_witness:
  "1 \<le> N_STEPS demo_cfg
   \<and> (\<exists>r. main demo_cfg demo_collab = Some r)
   \<and> main demo_cfg demo_collab =
       Some (Inr (demo_st2\<lparr>lr := 1 / 2, accum_rew := [2], accum_eval_rew := [2],
                    accum_steps := [2]\<rparr>))
   \<and> step_counter (demo_st2\<lparr>lr := 1 / 2, accum_rew := [2], accum_eval_rew := [2],
                    accum_steps := [2]\<rparr>)
        \<le> max 0 (TOTAL_TIMESTEPS demo_cfg + N_STEPS demo_cfg - 1)
   \<and> max 0 (TOTAL_TIMESTEPS demo_cfg + N_STEPS demo_cfg - 1) = 2
   \<and> for_loop demo_cfg demo_collab 2 demo_st0 0 0 = Inr (demo_st2, 2, 2)
   \<and> step_counter demo_st2 \<le> step_counter demo_st0 + int 2
   \<and> TOTAL_TIMESTEPS (demo_cfg\<lparr>TOTAL_TIMESTEPS := 0\<rparr>) \<le> 0
   \<and> main (demo_cfg\<lparr>TOTAL_TIMESTEPS := 0\<rparr>) demo_collab
        = Some (Inr (demo_st0\<lparr>epoch_counter := 0\<rparr>))
   \<and> step_counter (demo_st0\<lparr>epoch_counter := 0\<rparr>) = 0"
proof -
  have n: "1 \<le> N_STEPS demo_cfg" by (simp add: demo_cfg_def)
  have z: "TOTAL_TIMESTEPS (demo_cfg\<lparr>TOTAL_TIMESTEPS := 0\<rparr>) \<le> 0" by simp
  have i0: "init_state (demo_cfg\<lparr>TOTAL_TIMESTEPS := 0\<rparr>) demo_collab
              = demo_st0\<lparr>epoch_counter := 0\<rparr>"
    by (simp add: init_state_def demo_cfg_def demo_collab_def demo_st0_def draw_env_seed_def)
  have b0: "\<not> step_counter (demo_st0\<lparr>epoch_counter := 0\<rparr>)
               < TOTAL_TIMESTEPS (demo_cfg\<lparr>TOTAL_TIMESTEPS := 0\<rparr>)"
    by (simp add: demo_st0_def)
  have m0: "main (demo_cfg\<lparr>TOTAL_TIMESTEPS := 0\<rparr>) demo_collab
        = Some (Inr (demo_st0\<lparr>epoch_counter := 0\<rparr>))"
    unfolding main_def main_loop_def i0
    by (subst while_loop.simps) (simp only: b0 if_False)
  have s0: "step_counter (demo_st0\<lparr>epoch_counter := 0\<rparr>) = 0"
    by (rule run_budget[where cfg = "demo_cfg\<lparr>TOTAL_TIMESTEPS := 0\<rparr>" and c = demo_collab
          and ?st3.0 = "demo_st0\<lparr>epoch_counter := 0\<rparr>",
          THEN conjunct2, THEN conjunct2, THEN conjunct1, THEN mp, OF m0,
          THEN conjunct2, THEN conjunct2, THEN conjunct2, THEN mp, OF z])
  have a: "\<exists>r. main demo_cfg demo_collab = Some r"
    by (rule run_budget[where cfg = demo_cfg and c = demo_collab, THEN conjunct1, THEN mp,
          OF n, THEN conjunct2])
  have b: "step_counter (demo_st2\<lparr>lr := 1 / 2, accum_rew := [2], accum_eval_rew := [2],
                    accum_steps := [2]\<rparr>)
        \<le> max 0 (TOTAL_TIMESTEPS demo_cfg + N_STEPS demo_cfg - 1)"
    by (rule run_budget[where cfg = demo_cfg and c = demo_collab
          and ?st3.0 = "demo_st2\<lparr>lr := 1 / 2, accum_rew := [2], accum_eval_rew := [2],
                    accum_steps := [2]\<rparr>",
          THEN conjunct2, THEN conjunct2, THEN conjunct1, THEN mp, OF demo_main,
          THEN conjunct2, THEN conjunct2, THEN conjunct1])
  have m: "max 0 (TOTAL_TIMESTEPS demo_cfg + N_STEPS demo_cfg - 1) = 2"
    by (simp add: demo_cfg_def)
  have d: "step_counter demo_st2 \<le> step_counter demo_st0 + int 2"
    by (rule run_budget[where cfg = demo_cfg and c = demo_collab and n = 2 and st = demo_st0
          and s = 0 and er = 0 and ?st2.0 = demo_st2 and ?s2.0 = 2 and ?er2.0 = 2,
          THEN conjunct2, THEN conjunct2, THEN conjunct2, THEN mp, OF demo_loop2,
          THEN conjunct2])
  show ?thesis by (intro conjI n a demo_main b m demo_loop2 d z m0 s0)
qed

subsection \<open>The truncated flag\<close>

lemma set_trunc_fields:
  "sample_discrete_action (set_trunc f c) = sample_discrete_action c"
  "insert_exp (set_trunc f c) = insert_exp c"
  "counter (set_trunc f c) = counter c"
  "forward (set_trunc f c) = forward c"
  "sample_experience (set_trunc f c) = sample_experience c"
  "update_priorities (set_trunc f c) = update_priorities c"
  "optimizer_step (set_trunc f c) = optimizer_step c"
  "n_actions (set_trunc f c) = n_actions c"
  "n_states (set_trunc f c) = n_states c"
  "env_reset (set_trunc f c) = env_reset c"
  "net_init (set_trunc f c) = net_init c"
  "buffer_init (set_trunc f c) = buffer_init c"
  "gym_make (set_trunc f c) = gym_make c"
  "randint (set_trunc f c) = randint c"
  "seed_all (set_trunc f c) = seed_all c"
  by (simp_all add: set_trunc_def)

lemma set_trunc_env_step:
  "env_step c a e = ((ns, rew, dn, tr), e1)
     \<Longrightarrow> env_step (set_trunc f c) a e = ((ns, rew, dn, f a e), e1)"
  by (simp add: set_trunc_def)

lemma set_trunc_learn_due: "learn_due cfg (set_trunc f c) st = learn_due cfg c st"
  by (simp add: learn_due_def set_trunc_fields)

lemma set_trunc_gradient_update:
  "gradient_update cfg (set_trunc f c) = gradient_update cfg c"
  by (rule ext) (unfold gradient_update_def set_trunc_fields, rule refl)

lemma set_trunc_learn: "learn cfg (set_trunc f c) = learn cfg c"
  by (rule ext) (unfold learn_def set_trunc_gradient_update, rule refl)

lemma set_trunc_train_step_app:
  "train_step cfg (set_trunc f c) st s er = train_step cfg c st s er"
proof -
  obtain a rng1 where a:
    "sample_discrete_action c (online_qnet (st\<lparr>step_counter := step_counter st + 1\<rparr>)) s
       (epsilon (st\<lparr>step_counter := step_counter st + 1\<rparr>)) (n_actions c)
       (rng (st\<lparr>step_counter := step_counter st + 1\<rparr>)) = (a, rng1)"
    by (cases "sample_discrete_action c (online_qnet (st\<lparr>step_counter := step_counter st + 1\<rparr>)) s
       (epsilon (st\<lparr>step_counter := step_counter st + 1\<rparr>)) (n_actions c)
       (rng (st\<lparr>step_counter := step_counter st + 1\<rparr>))")
  obtain ns rew dn tr e1 where e:
    "env_step c a (env (st\<lparr>step_counter := step_counter st + 1\<rparr>)) = ((ns, rew, dn, tr), e1)"
    by (metis prod.exhaust)
  note e' = set_trunc_env_step[OF e, of f]
  show ?thesis
    unfolding train_step_def Let_def set_trunc_fields set_trunc_learn_due set_trunc_learn
      a prod.case e e' ..
qed

lemma set_trunc_train_step:
  "train_step cfg (set_trunc f c) = train_step cfg c"
  by (intro ext) (rule set_trunc_train_step_app)

lemma set_trunc_for_loop:
  "for_loop cfg (set_trunc f c) n = for_loop cfg c n"
proof (induction n)
  case 0
  show ?case by (intro ext) simp
next
  case (Suc n)
  show ?case by (intro ext) (unfold for_loop.simps set_trunc_train_step Suc.IH, rule refl)
qed

lemma set_trunc_eval_loop:
  "eval_loop (set_trunc f c) model na n e r s er = eval_loop c model na n e r s er"
proof (induction n arbitrary: e r s er)
  case 0
  then show ?case by simp
next
  case (Suc n)
  obtain a r1 where a: "sample_discrete_action c model s (- 1) na r = (a, r1)"
    by (cases "sample_discrete_action c model s (- 1) na r")
  obtain ns rew dn tr e1 where e: "env_step c a e = ((ns, rew, dn, tr), e1)"
    by (metis prod.exhaust)
  note e' = set_trunc_env_step[OF e, of f]
  show ?case by (simp add: set_trunc_fields a e e' Suc.IH)
qed

lemma set_trunc_eval_model:
  "eval_model (set_trunc f c) = eval_model c"
  by (intro ext) (simp add: eval_model_def set_trunc_fields set_trunc_eval_loop)

lemma set_trunc_evaluate:
  "evaluate cfg (set_trunc f c) = evaluate cfg c"
  by (intro ext) (unfold evaluate_def set_trunc_fields set_trunc_eval_model, rule refl)

lemma set_trunc_episode:
  "episode cfg (set_trunc f c) = episode cfg c"
  by (intro ext)
    (unfold episode_def set_trunc_fields set_trunc_for_loop set_trunc_evaluate, rule refl)

lemma set_trunc_main: "main cfg (set_trunc f c) = main cfg c"
  unfolding main_def main_loop_def set_trunc_episode init_state_def draw_env_seed_def
      set_trunc_fields ..

lemma train_step_done:
  assumes ts: "train_step cfg c st s er = Inr (st', s', er', dn)"
  shows "\<exists>a rng1 rew trunc env1.
       sample_discrete_action c (online_qnet st) s (epsilon st) (n_actions c) (rng st) = (a, rng1)
       \<and> env_step c a (env st) = ((s', rew, dn, trunc), env1)"
proof -
  from ts obtain a rng1 rew trunc env1 and due :: bool where
    "sample_discrete_action c (online_qnet st) s (epsilon st) (n_actions c) (rng st) = (a, rng1)"
    "env_step c a (env st) = ((s', rew, dn, trunc), env1)"
    by (rule train_step_view)
  then show ?thesis by blast
qed


text \<open>
  C8. Line 121 binds \<open>trunc\<close> and nothing reads it; line 168 leaves the loop on
  \<open>done\<close> alone. In the concrete run the environment reports \<open>truncated = True\<close> and
  \<open>done = False\<close> at every step: after the first step the loop goes on, and two
  iterations make two environment steps.
\<close>

theorem truncated_continues:
  "env_step demo_collab 0 (env demo_st0) = ((1, 1, False, True), 1)
   \<and> train_step demo_cfg demo_collab demo_st0 0 0 = Inr (demo_st1, 1, 1, False)
   \<and> env_step demo_collab 0 (env demo_st1) = ((2, 1, False, True), 2)
   \<and> for_loop demo_cfg demo_collab 2 demo_st0 0 0 = Inr (demo_st2, 2, 2)
   \<and> for_loop demo_cfg demo_collab 2 demo_st0 0 0 \<noteq> Inr (demo_st1, 1, 1)
   \<and> step_counter demo_st1 = 1 \<and> step_counter demo_st2 = 2"
proof -
  have a: "env_step demo_collab 0 (env demo_st0) = ((1, 1, False, True), 1)"
    by (simp add: demo_collab_def demo_st0_def)
  have b: "env_step demo_collab 0 (env demo_st1) = ((2, 1, False, True), 2)"
    by (simp add: demo_collab_def demo_st1_def)
  have c: "for_loop demo_cfg demo_collab 2 demo_st0 0 0 \<noteq> Inr (demo_st1, 1, 1)"
    unfolding demo_loop2 by simp
  have d: "step_counter demo_st1 = 1" "step_counter demo_st2 = 2"
    by (simp_all add: demo_st1_def demo_st2_def)
  show ?thesis by (intro conjI a demo_step1 b demo_loop2 c d)
qed

text \<open>
  C8, as the code has it. Replacing the \<open>truncated\<close> flag of every \<^verbatim>\<open>env.step\<close> by
  any other value changes nothing: not the result of an environment step of the loop (the
  transition stored, the learning update with its TD target, the schedules), nor of the
  episode loop, the evaluation, the episode or the whole run. An iteration of the episode
  loop is the last one exactly when \<^verbatim>\<open>env.step\<close> reported \<open>done\<close> (or the iterations
  are used up): after a step that returned, the loop stops if \<open>done\<close> and goes on with the
  next iteration otherwise.
\<close>

theorem truncation_ignored:
  "train_step cfg (set_trunc f c) st s er = train_step cfg c st s er
   \<and> for_loop cfg (set_trunc f c) n st s er = for_loop cfg c n st s er
   \<and> eval_model (set_trunc f c) model e r k na env_seed = eval_model c model e r k na env_seed
   \<and> episode cfg (set_trunc f c) env_seed st = episode cfg c env_seed st
   \<and> main cfg (set_trunc f c) = main cfg c
   \<and> (train_step cfg c st s er = Inr (st', s', er', dn) \<longrightarrow>
        (\<exists>a rng1 rew trunc env1.
           sample_discrete_action c (online_qnet st) s (epsilon st) (n_actions c) (rng st)
             = (a, rng1)
           \<and> env_step c a (env st) = ((s', rew, dn, trunc), env1))
        \<and> for_loop cfg c (Suc n) st s er
            = (if dn then Inr (st', s', er') else for_loop cfg c n st' s' er'))"
proof -
  have p: "(\<exists>a rng1 rew trunc env1.
           sample_discrete_action c (online_qnet st) s (epsilon st) (n_actions c) (rng st)
             = (a, rng1)
           \<and> env_step c a (env st) = ((s', rew, dn, trunc), env1))
        \<and> for_loop cfg c (Suc n) st s er
            = (if dn then Inr (st', s', er') else for_loop cfg c n st' s' er')"
    if ts: "train_step cfg c st s er = Inr (st', s', er', dn)"
    using train_step_done[OF ts] ts by simp
  show ?thesis
    unfolding set_trunc_train_step set_trunc_for_loop set_trunc_eval_model set_trunc_episode
      set_trunc_main
    using p by simp
qed

theorem truncation_ignored_witness:
  "train_step demo_cfg demo_collab demo_st0 0 0 = Inr (demo_st1, 1, 1, False)
   \<and> for_loop demo_cfg demo_collab (Suc 1) demo_st0 0 0
        = for_loop demo_cfg demo_collab 1 demo_st1 1 1
   \<and> (\<exists>a rng1 rew trunc env1.
         sample_discrete_action demo_collab (online_qnet demo_st0) 0 (epsilon demo_st0)
             (n_actions demo_collab) (rng demo_st0) = (a, rng1)
         \<and> env_step demo_collab a (env demo_st0) = ((1, rew, False, trunc), env1))"
proof -
  note w = truncation_ignored[where cfg = demo_cfg and c = demo_collab and st = demo_st0
      and s = 0 and er = 0 and st' = demo_st1 and s' = 1 and er' = 1 and dn = False and n = 1,
      THEN conjunct2, THEN conjunct2, THEN conjunct2, THEN conjunct2, THEN conjunct2,
      THEN mp, OF demo_step1]
  have a: "for_loop demo_cfg demo_collab (Suc 1) demo_st0 0 0
             = for_loop demo_cfg demo_collab 1 demo_st1 1 1"
    using w[THEN conjunct2] by (simp only: if_False)
  show ?thesis by (intro conjI demo_step1 a w[THEN conjunct1])
qed

subsection \<open>The environment seed\<close>

lemma only_seed_fields:
  "sample_discrete_action (only_seed k g c) = sample_discrete_action c"
  "insert_exp (only_seed k g c) = insert_exp c"
  "counter (only_seed k g c) = counter c"
  "forward (only_seed k g c) = forward c"
  "sample_experience (only_seed k g c) = sample_experience c"
  "update_priorities (only_seed k g c) = update_priorities c"
  "optimizer_step (only_seed k g c) = optimizer_step c"
  "n_actions (only_seed k g c) = n_actions c"
  "n_states (only_seed k g c) = n_states c"
  "env_step (only_seed k g c) = env_step c"
  "net_init (only_seed k g c) = net_init c"
  "buffer_init (only_seed k g c) = buffer_init c"
  "gym_make (only_seed k g c) = gym_make c"
  "randint (only_seed k g c) = randint c"
  "seed_all (only_seed k g c) = seed_all c"
  "env_reset (only_seed k g c) k = env_reset c k"
  by (simp_all add: only_seed_def)

lemma only_seed_learn_due: "learn_due cfg (only_seed k g c) = learn_due cfg c"
  by (rule ext) (unfold learn_due_def only_seed_fields, rule refl)

lemma only_seed_gradient_update:
  "gradient_update cfg (only_seed k g c) = gradient_update cfg c"
  by (rule ext) (unfold gradient_update_def only_seed_fields, rule refl)

lemma only_seed_learn: "learn cfg (only_seed k g c) = learn cfg c"
  by (rule ext) (unfold learn_def only_seed_gradient_update, rule refl)

lemma only_seed_train_step: "train_step cfg (only_seed k g c) = train_step cfg c"
  by (intro ext)
    (unfold train_step_def only_seed_fields only_seed_learn_due only_seed_learn, rule refl)

lemma only_seed_for_loop: "for_loop cfg (only_seed k g c) n = for_loop cfg c n"
proof (induction n)
  case 0
  show ?case by (intro ext) simp
next
  case (Suc n)
  show ?case by (intro ext) (unfold for_loop.simps only_seed_train_step Suc.IH, rule refl)
qed

lemma only_seed_eval_loop: "eval_loop (only_seed k g c) model na n = eval_loop c model na n"
proof (induction n)
  case 0
  show ?case by (intro ext) simp
next
  case (Suc n)
  show ?case by (intro ext) (unfold eval_loop.simps only_seed_fields Suc.IH, rule refl)
qed

lemma only_seed_eval_model:
  "eval_model (only_seed k g c) model e r n na k = eval_model c model e r n na k"
  unfolding eval_model_def only_seed_fields only_seed_eval_loop ..

lemma only_seed_evaluate: "evaluate cfg (only_seed k g c) k = evaluate cfg c k"
  by (intro ext) (unfold evaluate_def only_seed_fields only_seed_eval_model, rule refl)

lemma only_seed_episode: "episode cfg (only_seed k g c) k = episode cfg c k"
  by (intro ext)
    (unfold episode_def only_seed_fields only_seed_for_loop only_seed_evaluate, rule refl)

lemma only_seed_main_loop: "main_loop cfg (only_seed k g c) k = main_loop cfg c k"
  by (intro ext) (unfold main_loop_def only_seed_episode, rule refl)

lemma only_seed_draw: "draw_env_seed cfg (only_seed k g c) = draw_env_seed cfg c"
  unfolding draw_env_seed_def only_seed_fields ..

lemma only_seed_init: "init_state cfg (only_seed k g c) = init_state cfg c"
  unfolding init_state_def only_seed_fields only_seed_draw ..

lemma only_seed_main:
  "main cfg (only_seed (fst (draw_env_seed cfg c)) g c) = main cfg c"
  unfolding main_def only_seed_draw only_seed_init only_seed_main_loop ..


lemma episode_start:
  assumes ep: "episode cfg c env_seed st = Inr st'"
  shows "\<exists>st2 s2 er2.
       for_loop cfg c (nat (N_STEPS cfg))
         (st\<lparr>epoch_counter := epoch_counter st + 1,
             env := snd (env_reset c env_seed (env st))\<rparr>)
         (fst (env_reset c env_seed (env st))) 0 = Inr (st2, s2, er2)"
proof -
  from ep obtain s0 env0 st2 s2 er2 st3 where
    r: "env_reset c env_seed (env st) = (s0, env0)"
    and fl: "for_loop cfg c (nat (N_STEPS cfg))
       (st\<lparr>epoch_counter := epoch_counter st + 1, env := env0\<rparr>) s0 0 = Inr (st2, s2, er2)"
    by (rule episode_cases)
  show ?thesis unfolding r using fl by simp
qed

lemma eval_model_start:
  "eval_model c model e r n na env_seed
     = eval_loop c model na (nat n) (snd (env_reset c env_seed e)) r
         (fst (env_reset c env_seed e)) 0"
  by (simp add: eval_model_def split: prod.splits)

text \<open>
  C9. \<^verbatim>\<open>main\<close> seeds the generators, draws \<open>env_seed\<close> once (lines 64--67) and hands
  it to the training loop, which never assigns it. No reset of the run is called with
  another seed: the episode, the evaluation, the training loop and \<^verbatim>\<open>main\<close> are
  unchanged when \<^verbatim>\<open>env.reset\<close> is replaced by anything at all on every other seed.
  Every training episode that returns started its steps from
  \<^verbatim>\<open>env.reset(seed=env_seed)\<close>, and so does every evaluation; if a reset with this seed
  does not depend on the state the environment was in, they all start from the
  observation and the environment state that this reset gives on the fresh environment.
\<close>

theorem fixed_env_seed:
  "main cfg c = main_loop cfg c (fst (randint c 0 100 (seed_all c (SEED cfg)))) (init_state cfg c)
   \<and> main cfg (only_seed (fst (draw_env_seed cfg c)) g c) = main cfg c
   \<and> main_loop cfg (only_seed env_seed g c) env_seed st = main_loop cfg c env_seed st
   \<and> episode cfg (only_seed env_seed g c) env_seed st = episode cfg c env_seed st
   \<and> eval_model (only_seed env_seed g c) model e r n na env_seed
       = eval_model c model e r n na env_seed
   \<and> (episode cfg c env_seed st = Inr st' \<longrightarrow>
        (\<exists>st2 s2 er2.
           for_loop cfg c (nat (N_STEPS cfg))
             (st\<lparr>epoch_counter := epoch_counter st + 1,
                 env := snd (env_reset c env_seed (env st))\<rparr>)
             (fst (env_reset c env_seed (env st))) 0 = Inr (st2, s2, er2)))
   \<and> eval_model c model e r n na env_seed
       = eval_loop c model na (nat n) (snd (env_reset c env_seed e)) r
           (fst (env_reset c env_seed e)) 0
   \<and> ((\<forall>e'. env_reset c env_seed e' = env_reset c env_seed (gym_make c)) \<longrightarrow>
        (episode cfg c env_seed st = Inr st' \<longrightarrow>
          (\<exists>st2 s2 er2.
             for_loop cfg c (nat (N_STEPS cfg))
               (st\<lparr>epoch_counter := epoch_counter st + 1,
                   env := snd (env_reset c env_seed (gym_make c))\<rparr>)
               (fst (env_reset c env_seed (gym_make c))) 0 = Inr (st2, s2, er2)))
        \<and> eval_model c model e r n na env_seed
            = eval_loop c model na (nat n) (snd (env_reset c env_seed (gym_make c))) r
                (fst (env_reset c env_seed (gym_make c))) 0)"
proof -
  have p1: "main cfg c
      = main_loop cfg c (fst (randint c 0 100 (seed_all c (SEED cfg)))) (init_state cfg c)"
    by (simp add: main_def draw_env_seed_def)
  have p6: "\<exists>st2 s2 er2.
           for_loop cfg c (nat (N_STEPS cfg))
             (st\<lparr>epoch_counter := epoch_counter st + 1,
                 env := snd (env_reset c env_seed (env st))\<rparr>)
             (fst (env_reset c env_seed (env st))) 0 = Inr (st2, s2, er2)"
    if ep: "episode cfg c env_seed st = Inr st'"
    by (rule episode_start[OF ep])
  have p8: "(episode cfg c env_seed st = Inr st' \<longrightarrow>
          (\<exists>st2 s2 er2.
             for_loop cfg c (nat (N_STEPS cfg))
               (st\<lparr>epoch_counter := epoch_counter st + 1,
                   env := snd (env_reset c env_seed (gym_make c))\<rparr>)
               (fst (env_reset c env_seed (gym_make c))) 0 = Inr (st2, s2, er2)))
        \<and> eval_model c model e r n na env_seed
            = eval_loop c model na (nat n) (snd (env_reset c env_seed (gym_make c))) r
                (fst (env_reset c env_seed (gym_make c))) 0"
    if h: "\<forall>e'. env_reset c env_seed e' = env_reset c env_seed (gym_make c)"
  proof -
    have a: "env_reset c env_seed (env st) = env_reset c env_seed (gym_make c)"
      and b: "env_reset c env_seed e = env_reset c env_seed (gym_make c)"
      using h by simp_all
    show ?thesis using p6 eval_model_start[of c model e r n na env_seed] unfolding a b
      by blast
  qed
  show ?thesis
    unfolding only_seed_main only_seed_main_loop only_seed_episode only_seed_eval_model
    using p1 p6 p8 eval_model_start[of c model e r n na env_seed] by simp
qed

theorem fixed_env_seed_witness:
  "episode demo_cfg demo_collab 7 (demo_st0\<lparr>epoch_counter := 0\<rparr>) =
     Inr (demo_st2\<lparr>lr := 1 / 2, accum_rew := [2], accum_eval_rew := [2], accum_steps := [2]\<rparr>)
   \<and> (\<forall>e'. env_reset demo_collab 7 e' = env_reset demo_collab 7 (gym_make demo_collab))
   \<and> env_reset demo_collab 7 (gym_make demo_collab) = (0, 0)
   \<and> (\<exists>st2 s2 er2.
         for_loop demo_cfg demo_collab (nat (N_STEPS demo_cfg))
           (demo_st0\<lparr>epoch_counter := 0\<rparr>
              \<lparr>epoch_counter := epoch_counter (demo_st0\<lparr>epoch_counter := 0\<rparr>) + 1,
               env := snd (env_reset demo_collab 7 (gym_make demo_collab))\<rparr>)
           (fst (env_reset demo_collab 7 (gym_make demo_collab))) 0 = Inr (st2, s2, er2))"
proof -
  have h: "\<forall>e'. env_reset demo_collab 7 e' = env_reset demo_collab 7 (gym_make demo_collab)"
    by (simp add: demo_collab_def)
  have r: "env_reset demo_collab 7 (gym_make demo_collab) = (0, 0)"
    by (simp add: demo_collab_def)
  note w = fixed_env_seed[where cfg = demo_cfg and c = demo_collab and env_seed = 7
      and st = "demo_st0\<lparr>epoch_counter := 0\<rparr>"
      and st' = "demo_st2\<lparr>lr := 1 / 2, accum_rew := [2], accum_eval_rew := [2],
                   accum_steps := [2]\<rparr>",
      THEN conjunct2, THEN conjunct2, THEN conjunct2, THEN conjunct2, THEN conjunct2,
      THEN conjunct2, THEN conjunct2, THEN mp, OF h, THEN conjunct1, THEN mp,
      OF demo_episode2]
  show ?thesis by (intro conjI demo_episode2 h r w)
qed

subsection \<open>The periodic evaluation\<close>

text \<open>
  C10. The periodic evaluation (lines 179--182, with \<^verbatim>\<open>eval_model\<close>) returns the
  variables of \<^verbatim>\<open>main\<close> with the replay store, the online and the target network, the
  step count, the learning-update count, the exploration rate, the bias-correction
  exponent, the learning rate, the episode count and the logs of returns and steps as they
  were. When the episode count is a multiple of \<open>PLOT_INTERVAL\<close> it appends the evaluation
  return to its log and leaves the environment and the random generator as the
  evaluation episode left them; otherwise it changes nothing.
\<close>

theorem evaluation_frame:
  "evaluate cfg c env_seed st = Inr st' \<longrightarrow>
     exp_replay st' = exp_replay st
     \<and> online_qnet st' = online_qnet st \<and> target_qnet st' = target_qnet st
     \<and> step_counter st' = step_counter st \<and> lstep_counter st' = lstep_counter st
     \<and> epsilon st' = epsilon st \<and> beta st' = beta st
     \<and> lr st' = lr st \<and> epoch_counter st' = epoch_counter st
     \<and> accum_rew st' = accum_rew st \<and> accum_steps st' = accum_steps st
     \<and> st' = (if epoch_counter st mod PLOT_INTERVAL cfg = 0
              then st\<lparr>accum_eval_rew := accum_eval_rew st @
                          [fst (eval_model c (online_qnet st) (env st) (rng st) (N_STEPS cfg)
                                  (n_actions c) env_seed)],
                      env := fst (snd (eval_model c (online_qnet st) (env st) (rng st)
                                  (N_STEPS cfg) (n_actions c) env_seed)),
                      rng := snd (snd (eval_model c (online_qnet st) (env st) (rng st)
                                  (N_STEPS cfg) (n_actions c) env_seed))\<rparr>
              else st)"
proof
  assume ev: "evaluate cfg c env_seed st = Inr st'"
  note f = evaluate_Inr(2)[OF ev]
  have "exp_replay st' = exp_replay st" "online_qnet st' = online_qnet st"
    "target_qnet st' = target_qnet st" "step_counter st' = step_counter st"
    "lstep_counter st' = lstep_counter st" "epsilon st' = epsilon st" "beta st' = beta st"
    "lr st' = lr st" "epoch_counter st' = epoch_counter st"
    "accum_rew st' = accum_rew st" "accum_steps st' = accum_steps st"
    unfolding f by simp_all
  then show "exp_replay st' = exp_replay st
     \<and> online_qnet st' = online_qnet st \<and> target_qnet st' = target_qnet st
     \<and> step_counter st' = step_counter st \<and> lstep_counter st' = lstep_counter st
     \<and> epsilon st' = epsilon st \<and> beta st' = beta st
     \<and> lr st' = lr st \<and> epoch_counter st' = epoch_counter st
     \<and> accum_rew st' = accum_rew st \<and> accum_steps st' = accum_steps st
     \<and> st' = (if epoch_counter st mod PLOT_INTERVAL cfg = 0
              then st\<lparr>accum_eval_rew := accum_eval_rew st @
                          [fst (eval_model c (online_qnet st) (env st) (rng st) (N_STEPS cfg)
                                  (n_actions c) env_seed)],
                      env := fst (snd (eval_model c (online_qnet st) (env st) (rng st)
                                  (N_STEPS cfg) (n_actions c) env_seed)),
                      rng := snd (snd (eval_model c (online_qnet st) (env st) (rng st)
                                  (N_STEPS cfg) (n_actions c) env_seed))\<rparr>
              else st)"
    using f by simp
qed

theorem evaluation_frame_witness:
  "evaluate demo_cfg demo_collab 7 demo_st1
     = Inr (demo_st1\<lparr>accum_eval_rew := [2], env := 2\<rparr>)
   \<and> exp_replay (demo_st1\<lparr>accum_eval_rew := [2], env := 2\<rparr>) = exp_replay demo_st1
   \<and> online_qnet (demo_st1\<lparr>accum_eval_rew := [2], env := 2\<rparr>) = online_qnet demo_st1
   \<and> step_counter (demo_st1\<lparr>accum_eval_rew := [2], env := 2\<rparr>) = step_counter demo_st1
   \<and> env demo_st1 = 1"
proof -
  have ev: "evaluate demo_cfg demo_collab 7 demo_st1
     = Inr (demo_st1\<lparr>accum_eval_rew := [2], env := 2\<rparr>)"
    by (simp add: evaluate_def eval_model_def demo_cfg_def demo_collab_def demo_st1_def
          numeral_2_eq_2)
  note w = evaluation_frame[where cfg = demo_cfg and c = demo_collab and env_seed = 7
      and st = demo_st1 and st' = "demo_st1\<lparr>accum_eval_rew := [2], env := 2\<rparr>",
      THEN mp, OF ev]
  have e: "env demo_st1 = 1" by (simp add: demo_st1_def)
  show ?thesis
    by (intro conjI ev w[THEN conjunct1] w[THEN conjunct2, THEN conjunct1]
          w[THEN conjunct2, THEN conjunct2, THEN conjunct2, THEN conjunct1] e)
qed

end
